theory Spec2Isabelle
  imports Main
begin

section \<open>Time expression parser of chrono: the data model\<close>

text \<open>
  The development embeds \<^verbatim>\<open>src/common/parsers/AbstractTimeExpressionParser.ts\<close>.
  Regular expression matching itself stays outside: a match enters the functions as
  the array of capture groups that \<^verbatim>\<open>RegExp.exec\<close> produced.
\<close>

subsection \<open>Strings and numbers of the capture groups\<close>

text \<open>
  \<^verbatim>\<open>parseInt\<close> on a capture group. The groups of both patterns are \<^verbatim>\<open>\d{m,n}\<close>, so
  they hold ASCII decimal digits only, and on such a string \<^verbatim>\<open>parseInt\<close> is the decimal
  value. Strings that are not digit strings (where JavaScript gives NaN or stops early)
  are outside what the patterns can capture; \<open>digits\<close> states the side condition.
\<close>

definition is_digit :: "char \<Rightarrow> bool" where
  "is_digit c = (c \<in> set ''0123456789'')"

definition digits :: "string \<Rightarrow> bool" where
  "digits s = (s \<noteq> [] \<and> list_all is_digit s)"

definition digit_value :: "char \<Rightarrow> int" where
  "digit_value c = int (of_char c) - 48"

definition parseInt :: "string \<Rightarrow> int" where
  "parseInt s = foldl (\<lambda>a c. 10 * a + digit_value c) 0 s"

text \<open>\<^verbatim>\<open>String.prototype.toLowerCase\<close> on one ASCII character.\<close>

definition toLowerCase :: "char \<Rightarrow> char" where
  "toLowerCase c =
     (case map_of (zip ''ABCDEFGHIJKLMNOPQRSTUVWXYZ'' ''abcdefghijklmnopqrstuvwxyz'') c of
        Some l \<Rightarrow> l
      | None \<Rightarrow> c)"

text \<open>
  \<^verbatim>\<open>match[AM_PM_HOUR_GROUP][0].toLowerCase()\<close>: the first character of the token in
  lower case. The alternatives of the token group are all non-empty, so the empty string
  (where JavaScript would throw) cannot be captured; it yields no letter here.
\<close>

definition first_lower :: "string \<Rightarrow> char option" where
  "first_lower s = (case s of [] \<Rightarrow> None | c # _ \<Rightarrow> Some (toLowerCase c))"

text \<open>
  An optional JavaScript number as an operand of \<^verbatim>\<open>+\<close>: \<^verbatim>\<open>null\<close> converts to 0.
\<close>

definition to_number :: "int option \<Rightarrow> int" where
  "to_number v = (case v of None \<Rightarrow> 0 | Some n \<Rightarrow> n)"

subsection \<open>Matches\<close>

text \<open>
  A \<^verbatim>\<open>RegExpMatchArray\<close> of either pattern: \<^verbatim>\<open>match.index\<close>, \<^verbatim>\<open>match[0]\<close>, \<^verbatim>\<open>match[1]\<close>
  (the boundary of the primary pattern, the phrase of the following pattern) and the
  groups the source reads through its constants \<^verbatim>\<open>HOUR_GROUP = 2\<close>, \<^verbatim>\<open>MINUTE_GROUP = 3\<close>,
  \<^verbatim>\<open>SECOND_GROUP = 4\<close>, \<^verbatim>\<open>MILLI_SECOND_GROUP = 5\<close> and \<^verbatim>\<open>AM_PM_HOUR_GROUP = 6\<close>.
  A group that did not take part in the match is \<open>None\<close>.
\<close>

record RegExpMatch =
  match_index :: nat
  match_0 :: string
  match_1 :: string
  HOUR_GROUP :: string
  MINUTE_GROUP :: "string option"
  SECOND_GROUP :: "string option"
  MILLI_SECOND_GROUP :: "string option"
  AM_PM_HOUR_GROUP :: "string option"

text \<open>What the numeric groups of the two patterns can hold.\<close>

definition opt_digits :: "nat \<Rightarrow> string option \<Rightarrow> bool" where
  "opt_digits n g = (case g of None \<Rightarrow> True | Some s \<Rightarrow> digits s \<and> length s \<le> n)"

definition grammar_match :: "RegExpMatch \<Rightarrow> bool" where
  "grammar_match m =
     (digits (HOUR_GROUP m) \<and> length (HOUR_GROUP m) \<le> 4 \<and>
      opt_digits 2 (MINUTE_GROUP m) \<and>
      opt_digits 2 (SECOND_GROUP m) \<and>
      opt_digits 6 (MILLI_SECOND_GROUP m))"

subsection \<open>Components and results\<close>

text \<open>
  Modelled from the spec: \<^verbatim>\<open>enum Meridiem\<close> is declared in \<^verbatim>\<open>index.ts\<close>, which is not among
  the sources. The spec gives its two values, AM and PM; a TypeScript enum numbers them 0
  and 1, and the source relies on both being at least 0 and distinct.
\<close>

definition Meridiem_AM :: int where
  "Meridiem_AM = 0"

definition Meridiem_PM :: int where
  "Meridiem_PM = 1"

datatype Component = Year | Month | Day | Hour | Minute | Second | Millisecond | Meridiem

text \<open>
  Modelled from the spec: \<^verbatim>\<open>ParsingComponents\<close> (file \<^verbatim>\<open>results.ts\<close>) is not among the
  sources. The spec describes a mapping from field names to integers, each entry tagged
  certain or implied, as two disjoint mappings merged with certain-wins-on-conflict,
  where an implied value never replaces a certain one.
\<close>

record ParsingComponents =
  knownValues :: "Component \<rightharpoonup> int"
  impliedValues :: "Component \<rightharpoonup> int"

text \<open>
  Modelled from the spec: the operations of the container. A read prefers the certain
  entry; \<open>imply\<close> leaves a certain entry alone; \<open>assign\<close> makes the entry certain and drops
  the implied one; \<open>delete\<close> drops both.
\<close>

definition get :: "ParsingComponents \<Rightarrow> Component \<Rightarrow> int option" where
  "get c k = (case knownValues c k of Some v \<Rightarrow> Some v | None \<Rightarrow> impliedValues c k)"

definition isCertain :: "ParsingComponents \<Rightarrow> Component \<Rightarrow> bool" where
  "isCertain c k = (knownValues c k \<noteq> None)"

definition imply :: "ParsingComponents \<Rightarrow> Component \<Rightarrow> int \<Rightarrow> ParsingComponents" where
  "imply c k v =
     (if knownValues c k \<noteq> None then c
      else c\<lparr>impliedValues := (impliedValues c)(k \<mapsto> v)\<rparr>)"

definition assign :: "ParsingComponents \<Rightarrow> Component \<Rightarrow> int \<Rightarrow> ParsingComponents" where
  "assign c k v =
     c\<lparr>knownValues := (knownValues c)(k \<mapsto> v),
       impliedValues := (impliedValues c)(k := None)\<rparr>"

definition delete :: "ParsingComponents \<Rightarrow> Component \<Rightarrow> ParsingComponents" where
  "delete c k =
     c\<lparr>knownValues := (knownValues c)(k := None),
       impliedValues := (impliedValues c)(k := None)\<rparr>"

text \<open>
  Modelled from the spec: a clone is a copy by value, so that start and end never alias
  after the branch.
\<close>

definition clone :: "ParsingComponents \<Rightarrow> ParsingComponents" where
  "clone c = c"

text \<open>
  Modelled from the spec: \<^verbatim>\<open>ParsingResult\<close> (file \<^verbatim>\<open>results.ts\<close>): the matched span
  (offset and consumed text), the start components and the optional end components.
\<close>

record ParsingResult =
  res_index :: nat
  res_text :: string
  res_start :: ParsingComponents
  res_end :: "ParsingComponents option"

text \<open>
  Modelled from the spec: \<^verbatim>\<open>ParsingContext\<close> (file \<^verbatim>\<open>chrono.ts\<close>) is not among the
  sources. It carries the reference date, read through \<^verbatim>\<open>dayjs\<close> as \<^verbatim>\<open>year()\<close>, the
  zero-based \<^verbatim>\<open>month()\<close> and \<^verbatim>\<open>date()\<close>, and the factory of components. What the factory
  puts into fresh components is not fixed by the spec: nothing is certain in them, and
  the implied entries they start with are the parameter \<open>defaults\<close>.
\<close>

record ParsingContext =
  ref_year :: int
  ref_month :: int
  ref_date :: int
  defaults :: "Component \<rightharpoonup> int"

text \<open>
  Modelled from the spec: the two factory methods of the context. A fresh result has a
  fresh start and no end.
\<close>

definition createParsingComponents :: "ParsingContext \<Rightarrow> ParsingComponents" where
  "createParsingComponents ctx =
     \<lparr>knownValues = Map.empty, impliedValues = defaults ctx\<rparr>"

definition createParsingResult :: "ParsingContext \<Rightarrow> nat \<Rightarrow> string \<Rightarrow> ParsingResult" where
  "createParsingResult ctx i t =
     \<lparr>res_index = i, res_text = t, res_start = createParsingComponents ctx, res_end = None\<rparr>"

section \<open>The primary decode\<close>

text \<open>
  \<^verbatim>\<open>extractPrimaryTimeComponents\<close> (lines 91 to 165). The local \<^verbatim>\<open>meridiem\<close> starts as
  \<^verbatim>\<open>null\<close>; \<open>None\<close> as a result is the source's \<^verbatim>\<open>return null\<close>.
\<close>

definition extractPrimaryTimeComponents ::
  "ParsingContext \<Rightarrow> RegExpMatch \<Rightarrow> ParsingComponents option" where
  "extractPrimaryTimeComponents ctx match =
     (let components = createParsingComponents ctx;
          hour = parseInt (HOUR_GROUP match);
          (hour, minute) =
             (case MINUTE_GROUP match of
                Some s \<Rightarrow> (hour, parseInt s)
              | None \<Rightarrow> if hour > 100 then (hour div 100, hour mod 100) else (hour, 0))
      in if minute \<ge> 60 \<or> hour > 24 then None
         else
           let meridiem = (if hour \<ge> 12 then Some Meridiem_PM else None)
           in Option.bind
                (case AM_PM_HOUR_GROUP match of
                   None \<Rightarrow> Some (hour, meridiem)
                 | Some token \<Rightarrow>
                     if hour > 12 then None
                     else
                       let ampm = first_lower token;
                           (hour, meridiem) =
                              (if ampm = Some CHR ''a''
                               then (if hour = 12 then 0 else hour, Some Meridiem_AM)
                               else (hour, meridiem));
                           (hour, meridiem) =
                              (if ampm = Some CHR ''p''
                               then (if hour \<noteq> 12 then hour + 12 else hour, Some Meridiem_PM)
                               else (hour, meridiem))
                       in Some (hour, meridiem))
                (\<lambda>(hour, meridiem).
                   let components = assign components Hour hour;
                       components = assign components Minute minute;
                       components =
                          (case meridiem of
                             Some v \<Rightarrow> assign components Meridiem v
                           | None \<Rightarrow>
                               if hour < 12 then imply components Meridiem Meridiem_AM
                               else imply components Meridiem Meridiem_PM)
                   in Option.bind
                        (case MILLI_SECOND_GROUP match of
                           None \<Rightarrow> Some components
                         | Some s \<Rightarrow>
                             let millisecond = parseInt (take 3 s)
                             in if millisecond \<ge> 1000 then None
                                else Some (assign components Millisecond millisecond))
                        (\<lambda>components.
                           case SECOND_GROUP match of
                             None \<Rightarrow> Some components
                           | Some s \<Rightarrow>
                               let second = parseInt s
                               in if second \<ge> 60 then None
                                  else Some (assign components Second second))))"


section \<open>The duplicate of the primary decode\<close>

text \<open>
  \<^verbatim>\<open>extractStartTimeComponent\<close> (lines 167 to 240): the same steps, written a second time
  in the source, storing into \<^verbatim>\<open>result.start\<close> and returning the result.
\<close>

definition extractStartTimeComponent ::
  "ParsingResult \<Rightarrow> RegExpMatch \<Rightarrow> ParsingResult option" where
  "extractStartTimeComponent result match =
     (let hour = parseInt (HOUR_GROUP match);
          (hour, minute) =
             (case MINUTE_GROUP match of
                Some s \<Rightarrow> (hour, parseInt s)
              | None \<Rightarrow> if hour > 100 then (hour div 100, hour mod 100) else (hour, 0))
      in if minute \<ge> 60 \<or> hour > 24 then None
         else
           let meridiem = (if hour \<ge> 12 then Some Meridiem_PM else None)
           in Option.bind
                (case AM_PM_HOUR_GROUP match of
                   None \<Rightarrow> Some (hour, meridiem)
                 | Some token \<Rightarrow>
                     if hour > 12 then None
                     else
                       let ampm = first_lower token;
                           (hour, meridiem) =
                              (if ampm = Some CHR ''a''
                               then (if hour = 12 then 0 else hour, Some Meridiem_AM)
                               else (hour, meridiem));
                           (hour, meridiem) =
                              (if ampm = Some CHR ''p''
                               then (if hour \<noteq> 12 then hour + 12 else hour, Some Meridiem_PM)
                               else (hour, meridiem))
                       in Some (hour, meridiem))
                (\<lambda>(hour, meridiem).
                   let result = result\<lparr>res_start := assign (res_start result) Hour hour\<rparr>;
                       result = result\<lparr>res_start := assign (res_start result) Minute minute\<rparr>;
                       result =
                          (case meridiem of
                             Some v \<Rightarrow> result\<lparr>res_start := assign (res_start result) Meridiem v\<rparr>
                           | None \<Rightarrow>
                               if hour < 12
                               then result\<lparr>res_start := imply (res_start result) Meridiem Meridiem_AM\<rparr>
                               else result\<lparr>res_start := imply (res_start result) Meridiem Meridiem_PM\<rparr>)
                   in Option.bind
                        (case MILLI_SECOND_GROUP match of
                           None \<Rightarrow> Some result
                         | Some s \<Rightarrow>
                             let millisecond = parseInt (take 3 s)
                             in if millisecond \<ge> 1000 then None
                                else Some (result\<lparr>res_start :=
                                             assign (res_start result) Millisecond millisecond\<rparr>))
                        (\<lambda>result.
                           case SECOND_GROUP match of
                             None \<Rightarrow> Some result
                           | Some s \<Rightarrow>
                               let second = parseInt s
                               in if second \<ge> 60 then None
                                  else Some (result\<lparr>res_start :=
                                               assign (res_start result) Second second\<rparr>))))"

section \<open>The range decode\<close>

text \<open>
  \<^verbatim>\<open>extractEndTimeComponent\<close> (lines 242 to 343). The method \<^verbatim>\<open>date()\<close> of the components
  container is not among the sources; the instant it yields (its \<^verbatim>\<open>getTime()\<close>) is the
  parameter \<open>date\<close>. The local \<^verbatim>\<open>meridiem\<close> starts as \<^verbatim>\<open>-1\<close>. Reads of a component that may
  be \<^verbatim>\<open>null\<close> follow JavaScript: \<^verbatim>\<open>null == 12\<close> is false, and \<^verbatim>\<open>null\<close> is 0 under \<^verbatim>\<open>+\<close> and
  \<^verbatim>\<open>>\<close>. The variable \<open>rend\<close> is \<^verbatim>\<open>result.end\<close>, \<open>start\<close> is \<^verbatim>\<open>result.start\<close>.
\<close>

definition extractEndTimeComponent ::
  "(ParsingComponents \<Rightarrow> int) \<Rightarrow> ParsingResult \<Rightarrow> RegExpMatch \<Rightarrow> ParsingResult option" where
  "extractEndTimeComponent date result match =
     (let rend = clone (res_start result)
      in Option.bind
           (case MILLI_SECOND_GROUP match of
              None \<Rightarrow> Some rend
            | Some s \<Rightarrow>
                let millisecond = parseInt (take 3 s)
                in if millisecond \<ge> 1000 then None
                   else Some (assign rend Millisecond millisecond))
           (\<lambda>rend.
              Option.bind
                (case SECOND_GROUP match of
                   None \<Rightarrow> Some rend
                 | Some s \<Rightarrow>
                     let second = parseInt s
                     in if second \<ge> 60 then None
                        else Some (assign rend Second second))
                (\<lambda>rend.
                   let hour = parseInt (HOUR_GROUP match);
                       (hour, minute) =
                          (case MINUTE_GROUP match of
                             Some s \<Rightarrow> (hour, parseInt s)
                           | None \<Rightarrow>
                               if hour > 100 then (hour div 100, hour mod 100) else (hour, 0))
                   in if minute \<ge> 60 \<or> hour > 24 then None
                      else
                        let meridiem = (if hour \<ge> 12 then Meridiem_PM else - 1)
                        in Option.bind
                             (case AM_PM_HOUR_GROUP match of
                                None \<Rightarrow> Some (res_start result, rend, hour, meridiem)
                              | Some token \<Rightarrow>
                                  if hour > 12 then None
                                  else
                                    let ampm = first_lower token;
                                        (rend, hour, meridiem) =
                                           (if ampm = Some CHR ''a''
                                            then (if hour = 12
                                                  then (if \<not> isCertain rend Day
                                                        then imply rend Day (to_number (get rend Day) + 1)
                                                        else rend)
                                                  else rend,
                                                  if hour = 12 then 0 else hour,
                                                  Meridiem_AM)
                                            else (rend, hour, meridiem));
                                        (hour, meridiem) =
                                           (if ampm = Some CHR ''p''
                                            then (if hour \<noteq> 12 then hour + 12 else hour, Meridiem_PM)
                                            else (hour, meridiem));
                                        start = res_start result;
                                        start =
                                           (if \<not> isCertain start Meridiem
                                            then if meridiem = Meridiem_AM
                                                 then let start = imply start Meridiem Meridiem_AM
                                                      in if get start Hour = Some 12
                                                         then assign start Hour 0
                                                         else start
                                                 else let start = imply start Meridiem Meridiem_PM
                                                      in if get start Hour \<noteq> Some 12
                                                         then assign start Hour (to_number (get start Hour) + 12)
                                                         else start
                                            else start)
                                    in Some (start, rend, hour, meridiem))
                             (\<lambda>(start, rend, hour, meridiem).
                                let rtext = res_text result @ match_0 match;
                                    rend = assign rend Hour hour;
                                    rend = assign rend Minute minute;
                                    rend =
                                       (if meridiem \<ge> 0 then assign rend Meridiem meridiem
                                        else
                                          let startAtPM =
                                                (isCertain start Meridiem \<and>
                                                 get start Meridiem = Some Meridiem_PM)
                                          in if startAtPM \<and> to_number (get start Hour) > hour
                                             then imply (delete rend Meridiem) Meridiem Meridiem_AM
                                             else if hour > 12
                                                  then imply (delete rend Meridiem) Meridiem Meridiem_PM
                                                  else rend);
                                    rend =
                                       (if date rend < date start
                                        then imply rend Day (to_number (get rend Day) + 1)
                                        else rend)
                                in Some (result\<lparr>res_text := rtext,
                                                 res_start := start,
                                                 res_end := Some rend\<rparr>)))))"

section \<open>The extractor\<close>

text \<open>The test \<^verbatim>\<open>/^\s*([+-])\s*\d{3,4}$/\<close> of line 83, on ASCII text.\<close>

definition is_space :: "char \<Rightarrow> bool" where
  "is_space c = (c \<in> set [CHR '' '', CHR 0x09, CHR 0x0A, CHR 0x0B, CHR 0x0C, CHR 0x0D])"

definition timezone_like :: "string \<Rightarrow> bool" where
  "timezone_like s =
     (case dropWhile is_space s of
        [] \<Rightarrow> False
      | c # rest \<Rightarrow>
          (c = CHR ''+'' \<or> c = CHR ''-'') \<and>
          (let ds = dropWhile is_space rest
           in (length ds = 3 \<or> length ds = 4) \<and> list_all is_digit ds))"

text \<open>
  The method \<^verbatim>\<open>extract\<close> of the parser (lines 61 to 89), named \<open>parser_extract\<close> since
  the bare name is taken by Isabelle. The argument \<open>following\<close> is what
  \<^verbatim>\<open>followingPattern.exec(remainingText)\<close> returned, \<open>None\<close> for no match. The source
  returns \<^verbatim>\<open>null\<close> after moving \<^verbatim>\<open>match.index\<close> past the failed match; here that is \<open>Inl\<close>
  of the new index. \<^verbatim>\<open>result.clone()\<close> is a copy by value.
\<close>

definition parser_extract ::
  "(ParsingComponents \<Rightarrow> int) \<Rightarrow> ParsingContext \<Rightarrow> RegExpMatch \<Rightarrow> RegExpMatch option
     \<Rightarrow> nat + ParsingResult" where
  "parser_extract date ctx match following =
     (let result = createParsingResult ctx
                     (match_index match + length (match_1 match))
                     (drop (length (match_1 match)) (match_0 match));
          result = result\<lparr>res_start := imply (res_start result) Day (ref_date ctx)\<rparr>;
          result = result\<lparr>res_start := imply (res_start result) Month (ref_month ctx + 1)\<rparr>;
          result = result\<lparr>res_start := imply (res_start result) Year (ref_year ctx)\<rparr>
      in case extractPrimaryTimeComponents ctx match of
           None \<Rightarrow> Inl (match_index match + length (match_0 match))
         | Some components \<Rightarrow>
             let result = result\<lparr>res_start := components\<rparr>
             in case following of
                  None \<Rightarrow> Inr result
                | Some match \<Rightarrow>
                    if timezone_like (match_0 match) then Inr result
                    else case extractEndTimeComponent date result match of
                           Some newResult \<Rightarrow> Inr newResult
                         | None \<Rightarrow> Inr result)"


section \<open>The instant of a components value\<close>

text \<open>
  Modelled from the spec: \<^verbatim>\<open>date()\<close> of the components container (file \<^verbatim>\<open>results.ts\<close>) is
  not among the sources. The spec speaks of the instant of the components on a calendar
  day. The decode functions above take the instant as the parameter \<open>date\<close>; the function
  below is one such instant, in milliseconds on the proleptic Gregorian calendar without
  time zone, where an absent field counts as 0 and a day number or hour past the end of
  its month or day runs on into the next. It instantiates the parameter in the examples.
\<close>

definition days_from_civil :: "int \<Rightarrow> int \<Rightarrow> int \<Rightarrow> int" where
  "days_from_civil y m d =
     (let y1 = (if m \<le> 2 then y - 1 else y);
          era = y1 div 400;
          yoe = y1 - era * 400;
          mp = (if m > 2 then m - 3 else m + 9);
          doy = (153 * mp + 2) div 5 + d - 1;
          doe = yoe * 365 + yoe div 4 - yoe div 100 + doy
      in era * 146097 + doe - 719468)"

definition date_getTime :: "ParsingComponents \<Rightarrow> int" where
  "date_getTime c =
     (((days_from_civil (to_number (get c Year)) (to_number (get c Month)) (to_number (get c Day)) * 24
          + to_number (get c Hour)) * 60
         + to_number (get c Minute)) * 60
        + to_number (get c Second)) * 1000
     + to_number (get c Millisecond)"

text \<open>The components \<open>c\<close> moved to the calendar day that \<open>s\<close> implies.\<close>

definition on_day_of :: "ParsingComponents \<Rightarrow> ParsingComponents \<Rightarrow> ParsingComponents" where
  "on_day_of s c = c\<lparr>impliedValues := (impliedValues c)(Day := impliedValues s Day)\<rparr>"

section \<open>The decode in steps\<close>

text \<open>
  The three decode functions run the same steps. Each step is named here, so that a
  property of a whole function is proved from properties of its steps.
\<close>

text \<open>Spec 4.2, step 1: the hour and minute of the two digit groups, packed or not.\<close>

definition spec_hour_minute :: "string \<Rightarrow> string option \<Rightarrow> int \<times> int" where
  "spec_hour_minute g1 g2 =
     (let hour = parseInt g1
      in case g2 of
           Some s \<Rightarrow> (hour, parseInt s)
         | None \<Rightarrow> if hour > 100 then (hour div 100, hour mod 100) else (hour, 0))"

text \<open>Lines 112 to 133: the hour and the local \<^verbatim>\<open>meridiem\<close> after the token.\<close>

definition token_step :: "int \<Rightarrow> string option \<Rightarrow> (int \<times> int option) option" where
  "token_step hour tok =
     (case tok of
        None \<Rightarrow> Some (hour, if hour \<ge> 12 then Some Meridiem_PM else None)
      | Some token \<Rightarrow>
          if hour > 12 then None
          else if first_lower token = Some CHR ''a''
               then Some (if hour = 12 then 0 else hour, Some Meridiem_AM)
          else if first_lower token = Some CHR ''p''
               then Some (if hour \<noteq> 12 then hour + 12 else hour, Some Meridiem_PM)
          else Some (hour, if hour \<ge> 12 then Some Meridiem_PM else None))"

text \<open>Lines 135 to 146: hour, minute and meridiem stored.\<close>

definition store_step ::
  "ParsingComponents \<Rightarrow> int \<Rightarrow> int \<Rightarrow> int option \<Rightarrow> ParsingComponents" where
  "store_step c hour minute meridiem =
     (let c = assign (assign c Hour hour) Minute minute
      in case meridiem of
           Some v \<Rightarrow> assign c Meridiem v
         | None \<Rightarrow>
             if hour < 12 then imply c Meridiem Meridiem_AM
             else imply c Meridiem Meridiem_PM)"

text \<open>Lines 148 to 154 and 156 to 162: millisecond and second.\<close>

definition ms_step :: "string option \<Rightarrow> ParsingComponents \<Rightarrow> ParsingComponents option" where
  "ms_step g c =
     (case g of
        None \<Rightarrow> Some c
      | Some s \<Rightarrow>
          if parseInt (take 3 s) \<ge> 1000 then None
          else Some (assign c Millisecond (parseInt (take 3 s))))"

definition sec_step :: "string option \<Rightarrow> ParsingComponents \<Rightarrow> ParsingComponents option" where
  "sec_step g c =
     (case g of
        None \<Rightarrow> Some c
      | Some s \<Rightarrow>
          if parseInt s \<ge> 60 then None
          else Some (assign c Second (parseInt s)))"

text \<open>Lines 292 to 294: the day of an end at 12 AM.\<close>

definition midnight_day :: "ParsingComponents \<Rightarrow> ParsingComponents" where
  "midnight_day rend =
     (if \<not> isCertain rend Day then imply rend Day (to_number (get rend Day) + 1) else rend)"

text \<open>Lines 303 to 317: the meridiem of the end token carried back into the start.\<close>

definition back_propagate :: "ParsingComponents \<Rightarrow> int \<Rightarrow> ParsingComponents" where
  "back_propagate start meridiem =
     (if \<not> isCertain start Meridiem
      then if meridiem = Meridiem_AM
           then if get (imply start Meridiem Meridiem_AM) Hour = Some 12
                then assign (imply start Meridiem Meridiem_AM) Hour 0
                else imply start Meridiem Meridiem_AM
           else if get (imply start Meridiem Meridiem_PM) Hour \<noteq> Some 12
                then assign (imply start Meridiem Meridiem_PM) Hour
                       (to_number (get (imply start Meridiem Meridiem_PM) Hour) + 12)
                else imply start Meridiem Meridiem_PM
      else start)"

text \<open>Lines 277 to 318: start, end, hour and the local \<^verbatim>\<open>meridiem\<close> after the token.\<close>

definition end_token_step ::
  "ParsingComponents \<Rightarrow> ParsingComponents \<Rightarrow> int \<Rightarrow> string option
     \<Rightarrow> (ParsingComponents \<times> ParsingComponents \<times> int \<times> int) option" where
  "end_token_step start rend hour tok =
     (case tok of
        None \<Rightarrow> Some (start, rend, hour, if hour \<ge> 12 then Meridiem_PM else - 1)
      | Some token \<Rightarrow>
          if hour > 12 then None
          else if first_lower token = Some CHR ''a''
               then Some (back_propagate start Meridiem_AM,
                          if hour = 12 then midnight_day rend else rend,
                          if hour = 12 then 0 else hour,
                          Meridiem_AM)
          else if first_lower token = Some CHR ''p''
               then Some (back_propagate start Meridiem_PM,
                          rend,
                          if hour \<noteq> 12 then hour + 12 else hour,
                          Meridiem_PM)
          else Some (back_propagate start (if hour \<ge> 12 then Meridiem_PM else - 1),
                     rend,
                     hour,
                     if hour \<ge> 12 then Meridiem_PM else - 1))"

text \<open>Lines 324 to 336: the meridiem of the end.\<close>

definition end_meridiem ::
  "ParsingComponents \<Rightarrow> ParsingComponents \<Rightarrow> int \<Rightarrow> int \<Rightarrow> ParsingComponents" where
  "end_meridiem start rend hour meridiem =
     (if meridiem \<ge> 0 then assign rend Meridiem meridiem
      else if (isCertain start Meridiem \<and> get start Meridiem = Some Meridiem_PM)
              \<and> to_number (get start Hour) > hour
           then imply (delete rend Meridiem) Meridiem Meridiem_AM
      else if hour > 12 then imply (delete rend Meridiem) Meridiem Meridiem_PM
      else rend)"

text \<open>Lines 338 to 340: the end moved to the next day when it lies before the start.\<close>

definition rollover ::
  "(ParsingComponents \<Rightarrow> int) \<Rightarrow> ParsingComponents \<Rightarrow> ParsingComponents \<Rightarrow> ParsingComponents" where
  "rollover date start rend =
     (if date rend < date start then imply rend Day (to_number (get rend Day) + 1) else rend)"


text \<open>The hour and the minute that the digit groups of a match decode to.\<close>

definition decoded_hour :: "RegExpMatch \<Rightarrow> int" where
  "decoded_hour m = fst (spec_hour_minute (HOUR_GROUP m) (MINUTE_GROUP m))"

definition decoded_minute :: "RegExpMatch \<Rightarrow> int" where
  "decoded_minute m = snd (spec_hour_minute (HOUR_GROUP m) (MINUTE_GROUP m))"

text \<open>
  Spec 7, the validations of a decode: minute, hour, the token against the hour,
  millisecond and second.
\<close>

definition malformed_time :: "RegExpMatch \<Rightarrow> bool" where
  "malformed_time m =
     (decoded_minute m \<ge> 60 \<or> decoded_hour m > 24 \<or>
      (AM_PM_HOUR_GROUP m \<noteq> None \<and> decoded_hour m > 12) \<or>
      (case MILLI_SECOND_GROUP m of None \<Rightarrow> False | Some s \<Rightarrow> parseInt (take 3 s) \<ge> 1000) \<or>
      (case SECOND_GROUP m of None \<Rightarrow> False | Some s \<Rightarrow> parseInt s \<ge> 60))"

text \<open>The end token is AM on the raw hour 12, as in \<^verbatim>\<open>12am\<close>.\<close>

definition midnight_end :: "RegExpMatch \<Rightarrow> bool" where
  "midnight_end m =
     (case AM_PM_HOUR_GROUP m of
        None \<Rightarrow> False
      | Some token \<Rightarrow> first_lower token = Some CHR ''a'' \<and> decoded_hour m = 12)"

text \<open>An optional value within bounds; a value that must be present and within bounds.\<close>

definition opt_range :: "int option \<Rightarrow> int \<Rightarrow> int \<Rightarrow> bool" where
  "opt_range v lo hi = (case v of None \<Rightarrow> True | Some n \<Rightarrow> lo \<le> n \<and> n \<le> hi)"

definition in_range :: "int option \<Rightarrow> int \<Rightarrow> int \<Rightarrow> bool" where
  "in_range v lo hi = (case v of None \<Rightarrow> False | Some n \<Rightarrow> lo \<le> n \<and> n \<le> hi)"

definition time_in_range :: "int \<Rightarrow> ParsingComponents \<Rightarrow> bool" where
  "time_in_range hmax c =
     (in_range (get c Hour) 0 hmax \<and> in_range (get c Minute) 0 59 \<and>
      opt_range (get c Second) 0 59 \<and> opt_range (get c Millisecond) 0 999)"

text \<open>
  The result of line 63 with the start of line 69: the span of the primary match, the
  decoded start and no end.
\<close>

definition start_only :: "RegExpMatch \<Rightarrow> ParsingComponents \<Rightarrow> ParsingResult" where
  "start_only m c =
     \<lparr>res_index = match_index m + length (match_1 m),
      res_text = drop (length (match_1 m)) (match_0 m),
      res_start = c,
      res_end = None\<rparr>"

text \<open>Two components values hold the same entry, with the same tag, for a field.\<close>

definition same_at :: "Component \<Rightarrow> ParsingComponents \<Rightarrow> ParsingComponents \<Rightarrow> bool" where
  "same_at k a b = (knownValues a k = knownValues b k \<and> impliedValues a k = impliedValues b k)"

text \<open>
  The result as it stands after line 67 of \<^verbatim>\<open>extract\<close>: fresh, with the reference date
  implied into its start.
\<close>

definition result_after_line_67 :: "ParsingContext \<Rightarrow> RegExpMatch \<Rightarrow> ParsingResult" where
  "result_after_line_67 ctx match =
     (let result = createParsingResult ctx
                     (match_index match + length (match_1 match))
                     (drop (length (match_1 match)) (match_0 match));
          result = result\<lparr>res_start := imply (res_start result) Day (ref_date ctx)\<rparr>;
          result = result\<lparr>res_start := imply (res_start result) Month (ref_month ctx + 1)\<rparr>
      in result\<lparr>res_start := imply (res_start result) Year (ref_year ctx)\<rparr>)"

section \<open>Example inputs\<close>

text \<open>
  Two contexts with the reference date 2016-10-01: the factory of \<open>ctx_bare\<close> makes empty
  components, the factory of \<open>ctx_dated\<close> implies the reference date, noon and zero
  seconds in every fresh components value.
\<close>

definition ctx_bare :: ParsingContext where
  "ctx_bare = \<lparr>ref_year = 2016, ref_month = 9, ref_date = 1, defaults = Map.empty\<rparr>"

definition ctx_dated :: ParsingContext where
  "ctx_dated =
     \<lparr>ref_year = 2016, ref_month = 9, ref_date = 1,
      defaults = [Day \<mapsto> 1, Month \<mapsto> 10, Year \<mapsto> 2016, Hour \<mapsto> 12,
                  Minute \<mapsto> 0, Second \<mapsto> 0, Millisecond \<mapsto> 0]\<rparr>"

text \<open>
  Matches of the primary pattern at the start of a text, named after the matched text,
  and matches of the following pattern for the phrase \<^verbatim>\<open>-\<close>.
\<close>

definition m_1530 :: RegExpMatch where
  "m_1530 =
     \<lparr>match_index = 0, match_0 = ''1530'', match_1 = '''', HOUR_GROUP = ''1530'',
      MINUTE_GROUP = None, SECOND_GROUP = None, MILLI_SECOND_GROUP = None,
      AM_PM_HOUR_GROUP = None\<rparr>"

definition m_13pm :: RegExpMatch where
  "m_13pm =
     \<lparr>match_index = 0, match_0 = ''13pm'', match_1 = '''', HOUR_GROUP = ''13'',
      MINUTE_GROUP = None, SECOND_GROUP = None, MILLI_SECOND_GROUP = None,
      AM_PM_HOUR_GROUP = Some ''pm''\<rparr>"

definition m_12am :: RegExpMatch where
  "m_12am =
     \<lparr>match_index = 0, match_0 = ''12am'', match_1 = '''', HOUR_GROUP = ''12'',
      MINUTE_GROUP = None, SECOND_GROUP = None, MILLI_SECOND_GROUP = None,
      AM_PM_HOUR_GROUP = Some ''am''\<rparr>"

definition m_12pm :: RegExpMatch where
  "m_12pm =
     \<lparr>match_index = 0, match_0 = ''12pm'', match_1 = '''', HOUR_GROUP = ''12'',
      MINUTE_GROUP = None, SECOND_GROUP = None, MILLI_SECOND_GROUP = None,
      AM_PM_HOUR_GROUP = Some ''pm''\<rparr>"

definition m_10 :: RegExpMatch where
  "m_10 =
     \<lparr>match_index = 0, match_0 = ''10'', match_1 = '''', HOUR_GROUP = ''10'',
      MINUTE_GROUP = None, SECOND_GROUP = None, MILLI_SECOND_GROUP = None,
      AM_PM_HOUR_GROUP = None\<rparr>"

definition m_10pm :: RegExpMatch where
  "m_10pm =
     \<lparr>match_index = 0, match_0 = ''10pm'', match_1 = '''', HOUR_GROUP = ''10'',
      MINUTE_GROUP = None, SECOND_GROUP = None, MILLI_SECOND_GROUP = None,
      AM_PM_HOUR_GROUP = Some ''pm''\<rparr>"

definition m_11pm :: RegExpMatch where
  "m_11pm =
     \<lparr>match_index = 0, match_0 = ''11pm'', match_1 = '''', HOUR_GROUP = ''11'',
      MINUTE_GROUP = None, SECOND_GROUP = None, MILLI_SECOND_GROUP = None,
      AM_PM_HOUR_GROUP = Some ''pm''\<rparr>"

definition m_14_30 :: RegExpMatch where
  "m_14_30 =
     \<lparr>match_index = 0, match_0 = ''14:30'', match_1 = '''', HOUR_GROUP = ''14'',
      MINUTE_GROUP = Some ''30'', SECOND_GROUP = None, MILLI_SECOND_GROUP = None,
      AM_PM_HOUR_GROUP = None\<rparr>"

definition m_24_00 :: RegExpMatch where
  "m_24_00 =
     \<lparr>match_index = 0, match_0 = ''24:00'', match_1 = '''', HOUR_GROUP = ''24'',
      MINUTE_GROUP = Some ''00'', SECOND_GROUP = None, MILLI_SECOND_GROUP = None,
      AM_PM_HOUR_GROUP = None\<rparr>"

definition m_15_30_45_250 :: RegExpMatch where
  "m_15_30_45_250 =
     \<lparr>match_index = 0, match_0 = ''15:30:45.250'', match_1 = '''', HOUR_GROUP = ''15'',
      MINUTE_GROUP = Some ''30'', SECOND_GROUP = Some ''45'', MILLI_SECOND_GROUP = Some ''250'',
      AM_PM_HOUR_GROUP = None\<rparr>"

definition f_11pm :: RegExpMatch where
  "f_11pm =
     \<lparr>match_index = 0, match_0 = ''-11pm'', match_1 = ''-'', HOUR_GROUP = ''11'',
      MINUTE_GROUP = None, SECOND_GROUP = None, MILLI_SECOND_GROUP = None,
      AM_PM_HOUR_GROUP = Some ''pm''\<rparr>"

definition f_1am :: RegExpMatch where
  "f_1am =
     \<lparr>match_index = 0, match_0 = ''-1am'', match_1 = ''-'', HOUR_GROUP = ''1'',
      MINUTE_GROUP = None, SECOND_GROUP = None, MILLI_SECOND_GROUP = None,
      AM_PM_HOUR_GROUP = Some ''am''\<rparr>"

definition f_12am :: RegExpMatch where
  "f_12am =
     \<lparr>match_index = 0, match_0 = ''-12am'', match_1 = ''-'', HOUR_GROUP = ''12'',
      MINUTE_GROUP = None, SECOND_GROUP = None, MILLI_SECOND_GROUP = None,
      AM_PM_HOUR_GROUP = Some ''am''\<rparr>"

definition f_12 :: RegExpMatch where
  "f_12 =
     \<lparr>match_index = 0, match_0 = ''-12'', match_1 = ''-'', HOUR_GROUP = ''12'',
      MINUTE_GROUP = None, SECOND_GROUP = None, MILLI_SECOND_GROUP = None,
      AM_PM_HOUR_GROUP = None\<rparr>"

definition f_0500 :: RegExpMatch where
  "f_0500 =
     \<lparr>match_index = 0, match_0 = ''-0500'', match_1 = ''-'', HOUR_GROUP = ''0500'',
      MINUTE_GROUP = None, SECOND_GROUP = None, MILLI_SECOND_GROUP = None,
      AM_PM_HOUR_GROUP = None\<rparr>"

definition f_11_60 :: RegExpMatch where
  "f_11_60 =
     \<lparr>match_index = 0, match_0 = ''-11:60'', match_1 = ''-'', HOUR_GROUP = ''11'',
      MINUTE_GROUP = Some ''60'', SECOND_GROUP = None, MILLI_SECOND_GROUP = None,
      AM_PM_HOUR_GROUP = None\<rparr>"

definition m_25 :: RegExpMatch where
  "m_25 =
     \<lparr>match_index = 0, match_0 = ''25'', match_1 = '''', HOUR_GROUP = ''25'',
      MINUTE_GROUP = None, SECOND_GROUP = None, MILLI_SECOND_GROUP = None,
      AM_PM_HOUR_GROUP = None\<rparr>"

definition m_11_60 :: RegExpMatch where
  "m_11_60 =
     \<lparr>match_index = 0, match_0 = ''11:60'', match_1 = '''', HOUR_GROUP = ''11'',
      MINUTE_GROUP = Some ''60'', SECOND_GROUP = None, MILLI_SECOND_GROUP = None,
      AM_PM_HOUR_GROUP = None\<rparr>"

definition f_1 :: RegExpMatch where
  "f_1 =
     \<lparr>match_index = 0, match_0 = ''-1'', match_1 = ''-'', HOUR_GROUP = ''1'',
      MINUTE_GROUP = None, SECOND_GROUP = None, MILLI_SECOND_GROUP = None,
      AM_PM_HOUR_GROUP = None\<rparr>"

definition f_11 :: RegExpMatch where
  "f_11 =
     \<lparr>match_index = 0, match_0 = ''-11'', match_1 = ''-'', HOUR_GROUP = ''11'',
      MINUTE_GROUP = None, SECOND_GROUP = None, MILLI_SECOND_GROUP = None,
      AM_PM_HOUR_GROUP = None\<rparr>"

definition f_13_15_20 :: RegExpMatch where
  "f_13_15_20 =
     \<lparr>match_index = 0, match_0 = ''-13:15:20'', match_1 = ''-'', HOUR_GROUP = ''13'',
      MINUTE_GROUP = Some ''15'', SECOND_GROUP = Some ''20'', MILLI_SECOND_GROUP = None,
      AM_PM_HOUR_GROUP = None\<rparr>"

section \<open>Components: reading after writing\<close>

lemma get_assign: "get (assign c k v) k' = (if k' = k then Some v else get c k')"
  by (simp add: get_def assign_def split: option.splits)
lemma isCertain_assign: "isCertain (assign c k v) k' = (k' = k \<or> isCertain c k')"
  by (simp add: isCertain_def assign_def)
lemma get_imply: "get (imply c k v) k' = (if k' = k \<and> \<not> isCertain c k then Some v else get c k')"
  by (simp add: get_def imply_def isCertain_def split: option.splits)
lemma isCertain_imply: "isCertain (imply c k v) k' = isCertain c k'"
  by (simp add: isCertain_def imply_def)
lemma get_delete: "get (delete c k) k' = (if k' = k then None else get c k')"
  by (simp add: get_def delete_def split: option.splits)
lemma isCertain_delete: "isCertain (delete c k) k' = (k' \<noteq> k \<and> isCertain c k')"
  by (auto simp add: isCertain_def delete_def)
lemma get_fresh: "get (createParsingComponents ctx) k = defaults ctx k"
  by (simp add: get_def createParsingComponents_def)
lemma isCertain_fresh: "\<not> isCertain (createParsingComponents ctx) k"
  by (simp add: isCertain_def createParsingComponents_def)

section \<open>The functions as sequences of their steps\<close>

lemma toLowerCase_a: "toLowerCase c = CHR ''a'' \<longleftrightarrow> c = CHR ''a'' \<or> c = CHR ''A''"
  by (auto simp add: toLowerCase_def split: if_splits)
lemma toLowerCase_p: "toLowerCase c = CHR ''p'' \<longleftrightarrow> c = CHR ''p'' \<or> c = CHR ''P''"
  by (auto simp add: toLowerCase_def split: if_splits)

lemma hour_minute_unfold:
  "(case g2 of
      Some s \<Rightarrow> (parseInt g1, parseInt s)
    | None \<Rightarrow> if parseInt g1 > 100 then (parseInt g1 div 100, parseInt g1 mod 100) else (parseInt g1, 0))
   = spec_hour_minute g1 g2"
  by (simp add: spec_hour_minute_def Let_def split: option.splits)

lemma primary_nf:
  "extractPrimaryTimeComponents ctx m =
     (case spec_hour_minute (HOUR_GROUP m) (MINUTE_GROUP m) of
        (hour, minute) \<Rightarrow>
          if minute \<ge> 60 \<or> hour > 24 then None
          else Option.bind (token_step hour (AM_PM_HOUR_GROUP m))
                 (\<lambda>(hour, meridiem).
                    Option.bind
                      (ms_step (MILLI_SECOND_GROUP m)
                         (store_step (createParsingComponents ctx) hour minute meridiem))
                      (sec_step (SECOND_GROUP m))))"
proof -
  obtain h0 mi where hm: "spec_hour_minute (HOUR_GROUP m) (MINUTE_GROUP m) = (h0, mi)"
    by (cases "spec_hour_minute (HOUR_GROUP m) (MINUTE_GROUP m)")
  show ?thesis
    unfolding extractPrimaryTimeComponents_def Let_def hour_minute_unfold hm
    by (cases "AM_PM_HOUR_GROUP m"; cases "MILLI_SECOND_GROUP m"; cases "SECOND_GROUP m")
       (simp_all add: token_step_def store_step_def ms_step_def sec_step_def Let_def fun_eq_iff)
qed

lemma start_nf:
  "extractStartTimeComponent r m =
     (case spec_hour_minute (HOUR_GROUP m) (MINUTE_GROUP m) of
        (hour, minute) \<Rightarrow>
          if minute \<ge> 60 \<or> hour > 24 then None
          else Option.bind (token_step hour (AM_PM_HOUR_GROUP m))
                 (\<lambda>(hour, meridiem).
                    map_option (\<lambda>c. r\<lparr>res_start := c\<rparr>)
                     (Option.bind
                      (ms_step (MILLI_SECOND_GROUP m)
                         (store_step (res_start r) hour minute meridiem))
                      (sec_step (SECOND_GROUP m)))))"
proof -
  obtain h0 mi where hm: "spec_hour_minute (HOUR_GROUP m) (MINUTE_GROUP m) = (h0, mi)"
    by (cases "spec_hour_minute (HOUR_GROUP m) (MINUTE_GROUP m)")
  show ?thesis
    unfolding extractStartTimeComponent_def Let_def hour_minute_unfold hm
    by (cases "AM_PM_HOUR_GROUP m"; cases "MILLI_SECOND_GROUP m"; cases "SECOND_GROUP m")
       (simp_all add: token_step_def store_step_def ms_step_def sec_step_def Let_def fun_eq_iff)
qed

lemma end_nf:
  "extractEndTimeComponent date r m =
     Option.bind (ms_step (MILLI_SECOND_GROUP m) (res_start r))
       (\<lambda>e. Option.bind (sec_step (SECOND_GROUP m) e)
          (\<lambda>e. case spec_hour_minute (HOUR_GROUP m) (MINUTE_GROUP m) of
                  (hour, minute) \<Rightarrow>
                    if minute \<ge> 60 \<or> hour > 24 then None
                    else Option.bind (end_token_step (res_start r) e hour (AM_PM_HOUR_GROUP m))
                           (\<lambda>(start, e, hour, meridiem).
                              Some (r\<lparr>res_text := res_text r @ match_0 m,
                                      res_start := start,
                                      res_end := Some (rollover date start
                                         (end_meridiem start (assign (assign e Hour hour) Minute minute)
                                            hour meridiem))\<rparr>))))"
proof -
  obtain h0 mi where hm: "spec_hour_minute (HOUR_GROUP m) (MINUTE_GROUP m) = (h0, mi)"
    by (cases "spec_hour_minute (HOUR_GROUP m) (MINUTE_GROUP m)")
  show ?thesis
    unfolding extractEndTimeComponent_def Let_def hour_minute_unfold hm clone_def
    by (cases "AM_PM_HOUR_GROUP m"; cases "MILLI_SECOND_GROUP m"; cases "SECOND_GROUP m")
       (simp_all add: end_token_step_def back_propagate_def midnight_day_def end_meridiem_def
          rollover_def ms_step_def sec_step_def Let_def)
qed

lemma first_lower_Cons: "first_lower (c # rest) = Some (toLowerCase c)"
  by (simp add: first_lower_def)

lemma ms_step_frame:
  assumes "ms_step g c = Some c'" and "k \<noteq> Millisecond"
  shows "get c' k = get c k \<and> isCertain c' k = isCertain c k"
  using assms by (auto simp add: ms_step_def get_assign isCertain_assign split: option.splits if_splits)

lemma sec_step_frame:
  assumes "sec_step g c = Some c'" and "k \<noteq> Second"
  shows "get c' k = get c k \<and> isCertain c' k = isCertain c k"
  using assms by (auto simp add: sec_step_def get_assign isCertain_assign split: option.splits if_splits)

lemma ms_step_fails:
  "(ms_step g c = None) = (case g of None \<Rightarrow> False | Some s \<Rightarrow> parseInt (take 3 s) \<ge> 1000)"
  by (simp add: ms_step_def split: option.splits)

lemma sec_step_fails:
  "(sec_step g c = None) = (case g of None \<Rightarrow> False | Some s \<Rightarrow> parseInt s \<ge> 60)"
  by (simp add: sec_step_def split: option.splits)

lemma token_step_fails: "(token_step h tok = None) = (tok \<noteq> None \<and> h > 12)"
  by (simp add: token_step_def split: option.splits)

lemma store_step_hour_minute:
  "get (store_step c h mi mer) Hour = Some h \<and> get (store_step c h mi mer) Minute = Some mi"
  by (simp add: store_step_def Let_def get_assign get_imply split: option.splits)

lemma store_step_meridiem:
  "\<not> isCertain c Meridiem \<Longrightarrow>
   get (store_step c h mi mer) Meridiem =
     (case mer of Some v \<Rightarrow> Some v | None \<Rightarrow> Some (if h < 12 then Meridiem_AM else Meridiem_PM)) \<and>
   isCertain (store_step c h mi mer) Meridiem = (mer \<noteq> None)"
  by (simp add: store_step_def Let_def get_assign get_imply isCertain_assign isCertain_imply split: option.splits)

text \<open>What a successful primary decode went through.\<close>

lemma primary_SomeE:
  assumes "extractPrimaryTimeComponents ctx m = Some c"
  obtains h mer c1 where
    "decoded_minute m < 60" "decoded_hour m \<le> 24"
    "token_step (decoded_hour m) (AM_PM_HOUR_GROUP m) = Some (h, mer)"
    "ms_step (MILLI_SECOND_GROUP m)
       (store_step (createParsingComponents ctx) h (decoded_minute m) mer) = Some c1"
    "sec_step (SECOND_GROUP m) c1 = Some c"
  using assms unfolding primary_nf decoded_hour_def decoded_minute_def
  by (auto split: prod.splits if_splits Option.bind_splits)

lemma fraction_fails:
  "(Option.bind (ms_step g c) (sec_step g') = None) =
     ((case g of None \<Rightarrow> False | Some s \<Rightarrow> parseInt (take 3 s) \<ge> 1000) \<or>
      (case g' of None \<Rightarrow> False | Some s \<Rightarrow> parseInt s \<ge> 60))"
  by (cases g; cases g'; simp add: ms_step_def sec_step_def)

lemma primary_fails: "(extractPrimaryTimeComponents ctx m = None) = malformed_time m"
proof -
  obtain h0 mi where hm: "spec_hour_minute (HOUR_GROUP m) (MINUTE_GROUP m) = (h0, mi)"
    by (cases "spec_hour_minute (HOUR_GROUP m) (MINUTE_GROUP m)")
  show ?thesis
  proof (cases "token_step h0 (AM_PM_HOUR_GROUP m)")
    case None
    then have "AM_PM_HOUR_GROUP m \<noteq> None \<and> h0 > 12"
      by (simp add: token_step_fails)
    with None show ?thesis
      by (simp add: primary_nf malformed_time_def decoded_hour_def decoded_minute_def hm)
  next
    case (Some p)
    then have "\<not> (AM_PM_HOUR_GROUP m \<noteq> None \<and> h0 > 12)"
      using token_step_fails [of h0 "AM_PM_HOUR_GROUP m"] by simp
    with Some show ?thesis
      by (cases p)
         (auto simp add: primary_nf malformed_time_def decoded_hour_def decoded_minute_def hm
            fraction_fails)
  qed
qed

lemma primary_fields:
  assumes "extractPrimaryTimeComponents ctx m = Some c"
  obtains h mer where
    "token_step (decoded_hour m) (AM_PM_HOUR_GROUP m) = Some (h, mer)"
    "get c Hour = Some h" "get c Minute = Some (decoded_minute m)"
    "get c Meridiem = (case mer of Some v \<Rightarrow> Some v | None \<Rightarrow> Some (if h < 12 then Meridiem_AM else Meridiem_PM))"
    "isCertain c Meridiem = (mer \<noteq> None)"
proof -
  from assms obtain h mer c1 where
    t: "token_step (decoded_hour m) (AM_PM_HOUR_GROUP m) = Some (h, mer)"
    and ms: "ms_step (MILLI_SECOND_GROUP m)
       (store_step (createParsingComponents ctx) h (decoded_minute m) mer) = Some c1"
    and sec: "sec_step (SECOND_GROUP m) c1 = Some c"
    by (rule primary_SomeE)
  have fr: "\<And>k. k \<notin> {Millisecond, Second} \<Longrightarrow>
      get c k = get (store_step (createParsingComponents ctx) h (decoded_minute m) mer) k \<and>
      isCertain c k = isCertain (store_step (createParsingComponents ctx) h (decoded_minute m) mer) k"
    using ms_step_frame [OF ms] sec_step_frame [OF sec] by simp
  show ?thesis
    using that [OF t] fr [of Hour] fr [of Minute] fr [of Meridiem]
      store_step_hour_minute [of "createParsingComponents ctx" h "decoded_minute m" mer]
      store_step_meridiem [OF isCertain_fresh, of ctx h "decoded_minute m" mer]
    by simp
qed

section \<open>Evaluation of the examples\<close>

lemmas example_defs =
  ctx_bare_def ctx_dated_def m_1530_def m_13pm_def m_12am_def m_12pm_def m_10_def m_10pm_def
  m_11pm_def m_14_30_def m_24_00_def m_15_30_45_250_def f_11pm_def f_1am_def f_12am_def
  f_12_def f_0500_def f_11_60_def m_25_def m_11_60_def f_1_def f_11_def
  f_13_15_20_def

lemmas eval_defs =
  primary_nf end_nf parser_extract_def createParsingResult_def createParsingComponents_def
  spec_hour_minute_def decoded_hour_def decoded_minute_def token_step_def store_step_def
  ms_step_def sec_step_def midnight_day_def back_propagate_def end_token_step_def
  end_meridiem_def rollover_def timezone_like_def is_space_def is_digit_def
  parseInt_def digit_value_def first_lower_def toLowerCase_def to_number_def
  get_def isCertain_def imply_def assign_def delete_def Meridiem_AM_def Meridiem_PM_def
  date_getTime_def days_from_civil_def on_day_of_def Let_def

section \<open>The primary decode: hour, minute and meridiem\<close>

text \<open>
  Claim C6. The hour is the value of the first digit group and the minute that of the
  second; without a second group an hour above 100 is split into hour and minute
  (\<open>spec_hour_minute\<close>). The primary decode fails whenever that minute is at least 60 or that
  hour is above 24, in particular on the raw hour 25 and the raw minute 60, whatever the
  other groups hold. When it succeeds it stores that minute, and that hour if there is no
  AM/PM token.
\<close>

theorem hour_minute_decode:
  "(decoded_minute m \<ge> 60 \<or> decoded_hour m > 24 \<longrightarrow> extractPrimaryTimeComponents ctx m = None) \<and>
   (parseInt (HOUR_GROUP m) = 25 \<longrightarrow> extractPrimaryTimeComponents ctx m = None) \<and>
   (MINUTE_GROUP m = Some ''60'' \<longrightarrow> extractPrimaryTimeComponents ctx m = None) \<and>
   (\<forall>c. extractPrimaryTimeComponents ctx m = Some c \<longrightarrow>
       get c Minute = Some (decoded_minute m) \<and>
       (AM_PM_HOUR_GROUP m = None \<longrightarrow> get c Hour = Some (decoded_hour m)))"
proof (intro conjI allI impI)
  assume "decoded_minute m \<ge> 60 \<or> decoded_hour m > 24"
  then show "extractPrimaryTimeComponents ctx m = None"
    by (auto simp add: primary_fails malformed_time_def)
next
  assume "parseInt (HOUR_GROUP m) = 25"
  then have "decoded_hour m = 25"
    by (simp add: decoded_hour_def spec_hour_minute_def split: option.splits)
  then show "extractPrimaryTimeComponents ctx m = None"
    by (simp add: primary_fails malformed_time_def)
next
  assume "MINUTE_GROUP m = Some ''60''"
  then have "decoded_minute m = 60"
    by (simp add: decoded_minute_def spec_hour_minute_def parseInt_def digit_value_def)
  then show "extractPrimaryTimeComponents ctx m = None"
    by (simp add: primary_fails malformed_time_def)
next
  fix c assume c: "extractPrimaryTimeComponents ctx m = Some c"
  from c obtain h mer where "get c Minute = Some (decoded_minute m)"
    by (rule primary_fields)
  then show "get c Minute = Some (decoded_minute m)" .
next
  fix c assume c: "extractPrimaryTimeComponents ctx m = Some c"
    and n: "AM_PM_HOUR_GROUP m = None"
  from c obtain h mer where
    "token_step (decoded_hour m) (AM_PM_HOUR_GROUP m) = Some (h, mer)" "get c Hour = Some h"
    by (rule primary_fields)
  with n show "get c Hour = Some (decoded_hour m)"
    by (simp add: token_step_def)
qed

theorem hour_minute_decode_witness:
  "decoded_hour m_1530 = 15 \<and> decoded_minute m_1530 = 30 \<and>
   get (the (extractPrimaryTimeComponents ctx_bare m_1530)) Hour = Some 15 \<and>
   get (the (extractPrimaryTimeComponents ctx_bare m_1530)) Minute = Some 30 \<and>
   extractPrimaryTimeComponents ctx_bare m_25 = None \<and>
   extractPrimaryTimeComponents ctx_bare m_11_60 = None"
proof -
  have ok: "extractPrimaryTimeComponents ctx_bare m_1530 \<noteq> None"
    by (simp add: example_defs eval_defs)
  have h: "decoded_hour m_1530 = 15 \<and> decoded_minute m_1530 = 30 \<and>
      AM_PM_HOUR_GROUP m_1530 = None"
    by (simp add: example_defs eval_defs)
  have r: "parseInt (HOUR_GROUP m_25) = 25" "MINUTE_GROUP m_11_60 = Some ''60''"
    by (simp_all add: example_defs eval_defs)
  show ?thesis
    using ok h r hour_minute_decode [of m_1530 ctx_bare] hour_minute_decode [of m_25 ctx_bare]
      hour_minute_decode [of m_11_60 ctx_bare]
    by auto
qed

text \<open>
  Claim C7. With an AM/PM token the primary decode fails if the decoded hour is above
  12. Otherwise, when it succeeds, a token whose first letter is a or A gives meridiem AM
  with hour 12 turned into 0, a token whose first letter is p or P gives meridiem PM with
  12 added to every hour but 12, and the meridiem is certain.
\<close>

theorem token_decode:
  assumes "AM_PM_HOUR_GROUP m = Some (t # rest)"
  shows "(decoded_hour m > 12 \<longrightarrow> extractPrimaryTimeComponents ctx m = None) \<and>
   (\<forall>c. extractPrimaryTimeComponents ctx m = Some c \<longrightarrow>
      (t = CHR ''a'' \<or> t = CHR ''A'' \<longrightarrow>
         get c Meridiem = Some Meridiem_AM \<and> isCertain c Meridiem \<and>
         get c Hour = Some (if decoded_hour m = 12 then 0 else decoded_hour m)) \<and>
      (t = CHR ''p'' \<or> t = CHR ''P'' \<longrightarrow>
         get c Meridiem = Some Meridiem_PM \<and> isCertain c Meridiem \<and>
         get c Hour = Some (if decoded_hour m \<noteq> 12 then decoded_hour m + 12 else decoded_hour m)))"
proof -
  have fails: "extractPrimaryTimeComponents ctx m = None" if "decoded_hour m > 12"
    using that assms by (simp add: primary_fails malformed_time_def)
  have am: "get c Meridiem = Some Meridiem_AM \<and> isCertain c Meridiem \<and>
         get c Hour = Some (if decoded_hour m = 12 then 0 else decoded_hour m)"
    if c: "extractPrimaryTimeComponents ctx m = Some c" and t: "t = CHR ''a'' \<or> t = CHR ''A''"
    for c
  proof -
    from t have fl: "first_lower (t # rest) = Some CHR ''a''"
      by (simp add: first_lower_Cons toLowerCase_a)
    from c obtain h mer where
      ts: "token_step (decoded_hour m) (AM_PM_HOUR_GROUP m) = Some (h, mer)"
      and f: "get c Hour = Some h"
        "get c Meridiem = (case mer of Some v \<Rightarrow> Some v
                           | None \<Rightarrow> Some (if h < 12 then Meridiem_AM else Meridiem_PM))"
        "isCertain c Meridiem = (mer \<noteq> None)"
      by (rule primary_fields)
    from ts assms fl
    have "h = (if decoded_hour m = 12 then 0 else decoded_hour m) \<and> mer = Some Meridiem_AM"
      by (simp add: token_step_def split: if_splits)
    with f show ?thesis by simp
  qed
  have pm: "get c Meridiem = Some Meridiem_PM \<and> isCertain c Meridiem \<and>
         get c Hour = Some (if decoded_hour m \<noteq> 12 then decoded_hour m + 12 else decoded_hour m)"
    if c: "extractPrimaryTimeComponents ctx m = Some c" and t: "t = CHR ''p'' \<or> t = CHR ''P''"
    for c
  proof -
    from t have fl: "first_lower (t # rest) = Some CHR ''p''"
      by (simp add: first_lower_Cons toLowerCase_p)
    from c obtain h mer where
      ts: "token_step (decoded_hour m) (AM_PM_HOUR_GROUP m) = Some (h, mer)"
      and f: "get c Hour = Some h"
        "get c Meridiem = (case mer of Some v \<Rightarrow> Some v
                           | None \<Rightarrow> Some (if h < 12 then Meridiem_AM else Meridiem_PM))"
        "isCertain c Meridiem = (mer \<noteq> None)"
      by (rule primary_fields)
    from ts assms fl
    have "h = (if decoded_hour m \<noteq> 12 then decoded_hour m + 12 else decoded_hour m) \<and>
          mer = Some Meridiem_PM"
      by (simp add: token_step_def split: if_splits)
    with f show ?thesis by simp
  qed
  from fails am pm show ?thesis by blast
qed

theorem token_decode_witness:
  "extractPrimaryTimeComponents ctx_bare m_13pm = None \<and>
   get (the (extractPrimaryTimeComponents ctx_bare m_12am)) Hour = Some 0 \<and>
   get (the (extractPrimaryTimeComponents ctx_bare m_12am)) Meridiem = Some Meridiem_AM \<and>
   isCertain (the (extractPrimaryTimeComponents ctx_bare m_12am)) Meridiem \<and>
   get (the (extractPrimaryTimeComponents ctx_bare m_12pm)) Hour = Some 12 \<and>
   get (the (extractPrimaryTimeComponents ctx_bare m_12pm)) Meridiem = Some Meridiem_PM \<and>
   isCertain (the (extractPrimaryTimeComponents ctx_bare m_12pm)) Meridiem"
proof -
  have tok: "AM_PM_HOUR_GROUP m_13pm = Some (CHR ''p'' # ''m'')"
    "AM_PM_HOUR_GROUP m_12am = Some (CHR ''a'' # ''m'')"
    "AM_PM_HOUR_GROUP m_12pm = Some (CHR ''p'' # ''m'')"
    by (simp_all add: example_defs)
  have h: "decoded_hour m_13pm = 13" "decoded_hour m_12am = 12" "decoded_hour m_12pm = 12"
    by (simp_all add: example_defs eval_defs)
  have ok: "extractPrimaryTimeComponents ctx_bare m_12am \<noteq> None"
    "extractPrimaryTimeComponents ctx_bare m_12pm \<noteq> None"
    by (simp_all add: example_defs eval_defs)
  show ?thesis
    using h ok token_decode [OF tok(1), of ctx_bare] token_decode [OF tok(2), of ctx_bare]
      token_decode [OF tok(3), of ctx_bare]
    by auto
qed

text \<open>
  Claim C1, as the source has it. Without an AM/PM token a successful primary decode
  stores the decoded hour; below 12 the meridiem is AM and implied, from 12 on it is PM
  and certain.
\<close>

theorem meridiem_without_token:
  assumes "AM_PM_HOUR_GROUP m = None" and "extractPrimaryTimeComponents ctx m = Some c"
  shows "get c Hour = Some (decoded_hour m) \<and>
         (decoded_hour m < 12 \<longrightarrow> get c Meridiem = Some Meridiem_AM \<and> \<not> isCertain c Meridiem) \<and>
         (decoded_hour m \<ge> 12 \<longrightarrow> get c Meridiem = Some Meridiem_PM \<and> isCertain c Meridiem)"
proof -
  from assms(2) obtain h mer where
    ts: "token_step (decoded_hour m) (AM_PM_HOUR_GROUP m) = Some (h, mer)"
    and f: "get c Hour = Some h"
      "get c Meridiem = (case mer of Some v \<Rightarrow> Some v | None \<Rightarrow> Some (if h < 12 then Meridiem_AM else Meridiem_PM))"
      "isCertain c Meridiem = (mer \<noteq> None)"
    by (rule primary_fields)
  from ts assms(1) have "h = decoded_hour m \<and> mer = (if decoded_hour m \<ge> 12 then Some Meridiem_PM else None)"
    by (auto simp add: token_step_def)
  with f show ?thesis by simp
qed

theorem meridiem_without_token_witness:
  "get (the (extractPrimaryTimeComponents ctx_bare m_10)) Meridiem = Some Meridiem_AM \<and>
   \<not> isCertain (the (extractPrimaryTimeComponents ctx_bare m_10)) Meridiem \<and>
   get (the (extractPrimaryTimeComponents ctx_bare m_1530)) Meridiem = Some Meridiem_PM \<and>
   isCertain (the (extractPrimaryTimeComponents ctx_bare m_1530)) Meridiem"
proof -
  have tok: "AM_PM_HOUR_GROUP m_10 = None" "AM_PM_HOUR_GROUP m_1530 = None"
    by (simp_all add: example_defs)
  have h: "decoded_hour m_10 = 10" "decoded_hour m_1530 = 15"
    by (simp_all add: example_defs eval_defs)
  obtain c10 c15 where ok: "extractPrimaryTimeComponents ctx_bare m_10 = Some c10"
    "extractPrimaryTimeComponents ctx_bare m_1530 = Some c15"
    by (simp add: example_defs eval_defs)
  show ?thesis
    using h ok meridiem_without_token [OF tok(1) ok(1)] meridiem_without_token [OF tok(2) ok(2)]
    by simp
qed

text \<open>
  Claim C1, as the spec states it, fails: the match of \<^verbatim>\<open>14:30\<close> has no AM/PM token, its
  decode succeeds, and the meridiem is PM tagged certain, not implied.
\<close>

theorem meridiem_without_token_counterexample:
  "AM_PM_HOUR_GROUP m_14_30 = None \<and>
   extractPrimaryTimeComponents ctx_bare m_14_30 \<noteq> None \<and>
   get (the (extractPrimaryTimeComponents ctx_bare m_14_30)) Hour = Some 14 \<and>
   get (the (extractPrimaryTimeComponents ctx_bare m_14_30)) Meridiem = Some Meridiem_PM \<and>
   isCertain (the (extractPrimaryTimeComponents ctx_bare m_14_30)) Meridiem"
  by (simp add: example_defs eval_defs)

section \<open>The extractor and the failure of a range\<close>

lemma extract_nf:
  "parser_extract date ctx m f =
     (case extractPrimaryTimeComponents ctx m of
        None \<Rightarrow> Inl (match_index m + length (match_0 m))
      | Some c \<Rightarrow>
          (case f of
             None \<Rightarrow> Inr (start_only m c)
           | Some fm \<Rightarrow>
               if timezone_like (match_0 fm) then Inr (start_only m c)
               else case extractEndTimeComponent date (start_only m c) fm of
                      Some newResult \<Rightarrow> Inr newResult
                    | None \<Rightarrow> Inr (start_only m c)))"
  by (simp add: parser_extract_def createParsingResult_def start_only_def Let_def
      split: option.splits)

lemma end_token_step_fails: "(end_token_step s e h tok = None) = (tok \<noteq> None \<and> h > 12)"
  by (simp add: end_token_step_def split: option.splits)

lemma end_fails: "(extractEndTimeComponent date r m = None) = malformed_time m"
proof -
  obtain h0 mi where hm: "spec_hour_minute (HOUR_GROUP m) (MINUTE_GROUP m) = (h0, mi)"
    by (cases "spec_hour_minute (HOUR_GROUP m) (MINUTE_GROUP m)")
  show ?thesis
  proof (cases "ms_step (MILLI_SECOND_GROUP m) (res_start r)")
    case None
    then show ?thesis
      using ms_step_fails [of "MILLI_SECOND_GROUP m" "res_start r"]
      by (simp add: end_nf malformed_time_def)
  next
    case e1: (Some e1)
    then have ms: "\<not> (case MILLI_SECOND_GROUP m of None \<Rightarrow> False
                       | Some s \<Rightarrow> parseInt (take 3 s) \<ge> 1000)"
      using ms_step_fails [of "MILLI_SECOND_GROUP m" "res_start r"] by simp
    show ?thesis
    proof (cases "sec_step (SECOND_GROUP m) e1")
      case None
      then show ?thesis
        using e1 sec_step_fails [of "SECOND_GROUP m" e1]
        by (simp add: end_nf malformed_time_def)
    next
      case e2: (Some e2)
      then have sec: "\<not> (case SECOND_GROUP m of None \<Rightarrow> False | Some s \<Rightarrow> parseInt s \<ge> 60)"
        using sec_step_fails [of "SECOND_GROUP m" e1] by simp
      show ?thesis
      proof (cases "end_token_step (res_start r) e2 h0 (AM_PM_HOUR_GROUP m)")
        case None
        then show ?thesis
          using e1 e2 end_token_step_fails [of "res_start r" e2 h0 "AM_PM_HOUR_GROUP m"]
          by (simp add: end_nf hm malformed_time_def decoded_hour_def decoded_minute_def)
      next
        case (Some q)
        then have "\<not> (AM_PM_HOUR_GROUP m \<noteq> None \<and> h0 > 12)"
          using end_token_step_fails [of "res_start r" e2 h0 "AM_PM_HOUR_GROUP m"] by simp
        with Some e1 e2 ms sec show ?thesis
          by (cases q)
             (auto simp add: end_nf hm malformed_time_def decoded_hour_def decoded_minute_def)
      qed
    qed
  qed
qed

text \<open>
  Claim C5. When the primary decode succeeds and the following match looks like a time
  zone offset, or one of its validations fails, the extractor returns the start-only
  result: the span of the primary match, the start as the primary decode made it, and no
  end. It is the result returned when there is no following match at all.
\<close>

theorem range_failure_keeps_start:
  assumes "extractPrimaryTimeComponents ctx m = Some c"
    and "timezone_like (match_0 f) \<or> malformed_time f"
  shows "parser_extract date ctx m (Some f) =
           Inr \<lparr>res_index = match_index m + length (match_1 m),
                res_text = drop (length (match_1 m)) (match_0 m),
                res_start = c,
                res_end = None\<rparr> \<and>
         parser_extract date ctx m (Some f) = parser_extract date ctx m None"
proof (cases "timezone_like (match_0 f)")
  case True
  with assms(1) show ?thesis
    by (simp add: extract_nf start_only_def)
next
  case False
  with assms(2) have "extractEndTimeComponent date (start_only m c) f = None"
    by (simp add: end_fails)
  with assms(1) show ?thesis
    by (simp add: extract_nf start_only_def)
qed

theorem range_failure_keeps_start_witness:
  "timezone_like (match_0 f_0500) \<and> malformed_time f_11_60 \<and>
   parser_extract date_getTime ctx_dated m_14_30 (Some f_0500) =
     parser_extract date_getTime ctx_dated m_14_30 None \<and>
   parser_extract date_getTime ctx_dated m_14_30 (Some f_11_60) =
     parser_extract date_getTime ctx_dated m_14_30 None \<and>
   (case parser_extract date_getTime ctx_dated m_14_30 (Some f_0500) of
      Inl i \<Rightarrow> False
    | Inr r \<Rightarrow> get (res_start r) Hour = Some 14 \<and> get (res_start r) Minute = Some 30 \<and>
               res_end r = None \<and> res_text r = ''14:30'' \<and> res_index r = 0)"
proof -
  obtain c where c: "extractPrimaryTimeComponents ctx_dated m_14_30 = Some c"
    by (simp add: example_defs eval_defs)
  have "get (the (extractPrimaryTimeComponents ctx_dated m_14_30)) Hour = Some 14 \<and>
        get (the (extractPrimaryTimeComponents ctx_dated m_14_30)) Minute = Some 30"
    by (simp add: example_defs eval_defs)
  with c have v: "get c Hour = Some 14" "get c Minute = Some 30"
    by simp_all
  have t: "timezone_like (match_0 f_0500)" "malformed_time f_11_60"
    by (simp_all add: example_defs malformed_time_def eval_defs)
  have s: "match_index m_14_30 = 0" "match_1 m_14_30 = []" "match_0 m_14_30 = ''14:30''"
    by (simp_all add: example_defs)
  note r1 = range_failure_keeps_start [OF c disjI1 [OF t(1)], of date_getTime]
  note r2 = range_failure_keeps_start [OF c disjI2 [OF t(2)], of date_getTime]
  have a1: "parser_extract date_getTime ctx_dated m_14_30 (Some f_0500) =
      Inr \<lparr>res_index = 0, res_text = ''14:30'', res_start = c, res_end = None\<rparr>"
    using r1 [THEN conjunct1] s by simp
  have a2: "parser_extract date_getTime ctx_dated m_14_30 (Some f_11_60) =
      Inr \<lparr>res_index = 0, res_text = ''14:30'', res_start = c, res_end = None\<rparr>"
    using r2 [THEN conjunct1] s by simp
  have n: "parser_extract date_getTime ctx_dated m_14_30 None =
      Inr \<lparr>res_index = 0, res_text = ''14:30'', res_start = c, res_end = None\<rparr>"
    by (rule trans [OF r1 [THEN conjunct2, symmetric] a1])
  show ?thesis
    unfolding a1 a2 n using v t by simp
qed

section \<open>The range decode in steps\<close>

lemma same_at_refl: "same_at k a a"
  by (simp add: same_at_def)

lemma same_at_trans: "same_at k a b \<Longrightarrow> same_at k b c \<Longrightarrow> same_at k a c"
  by (simp add: same_at_def)

lemma same_at_get: "same_at k a b \<Longrightarrow> get a k = get b k \<and> isCertain a k = isCertain b k"
  by (simp add: same_at_def get_def isCertain_def split: option.splits)

lemma assign_same: "k \<noteq> k' \<Longrightarrow> same_at k (assign c k' v) c"
  by (simp add: same_at_def assign_def)

lemma imply_same: "k \<noteq> k' \<Longrightarrow> same_at k (imply c k' v) c"
  by (simp add: same_at_def imply_def)

lemma ms_step_same: "ms_step g c = Some c' \<Longrightarrow> k \<noteq> Millisecond \<Longrightarrow> same_at k c' c"
  by (auto simp add: ms_step_def assign_same same_at_refl split: option.splits if_splits)

lemma sec_step_same: "sec_step g c = Some c' \<Longrightarrow> k \<noteq> Second \<Longrightarrow> same_at k c' c"
  by (auto simp add: sec_step_def assign_same same_at_refl split: option.splits if_splits)

lemma store_step_same: "k \<notin> {Hour, Minute, Meridiem} \<Longrightarrow> same_at k (store_step c h mi mer) c"
  by (simp add: store_step_def Let_def same_at_def assign_def imply_def split: option.splits)

lemma midnight_day_same: "k \<noteq> Day \<Longrightarrow> same_at k (midnight_day e) e"
  by (simp add: midnight_day_def imply_same same_at_refl)

lemma back_propagate_same: "k \<notin> {Meridiem, Hour} \<Longrightarrow> same_at k (back_propagate s mer) s"
  by (simp add: back_propagate_def same_at_def assign_def imply_def)

lemma rollover_get:
  "k \<noteq> Day \<Longrightarrow> get (rollover date s e) k = get e k"
  "isCertain (rollover date s e) k = isCertain e k"
  by (simp_all add: rollover_def get_imply isCertain_imply)

lemma end_meridiem_get:
  "k \<noteq> Meridiem \<Longrightarrow> get (end_meridiem s e h mer) k = get e k"
  "k \<noteq> Meridiem \<Longrightarrow> isCertain (end_meridiem s e h mer) k = isCertain e k"
  by (simp_all add: end_meridiem_def get_assign get_imply get_delete isCertain_assign
      isCertain_imply isCertain_delete)

lemma back_propagate_certain: "isCertain s Meridiem \<Longrightarrow> back_propagate s mer = s"
  by (simp add: back_propagate_def)

lemma back_propagate_meridiem:
  "\<not> isCertain s Meridiem \<Longrightarrow>
   get (back_propagate s mer) Meridiem = Some (if mer = Meridiem_AM then Meridiem_AM else Meridiem_PM) \<and>
   \<not> isCertain (back_propagate s mer) Meridiem"
  by (simp add: back_propagate_def get_assign get_imply isCertain_assign isCertain_imply)

lemma back_propagate_hour:
  "\<not> isCertain s Meridiem \<Longrightarrow>
   get (back_propagate s mer) Hour =
     (if mer = Meridiem_AM
      then (if get s Hour = Some 12 then Some 0 else get s Hour)
      else (if get s Hour = Some 12 then Some 12 else Some (to_number (get s Hour) + 12)))"
  by (simp add: back_propagate_def get_assign get_imply)

text \<open>What a successful range decode went through.\<close>

lemma end_SomeE:
  assumes "extractEndTimeComponent date r m = Some r'"
  obtains e1 e2 s' e3 h mer where
    "ms_step (MILLI_SECOND_GROUP m) (res_start r) = Some e1"
    "sec_step (SECOND_GROUP m) e1 = Some e2"
    "decoded_minute m < 60" "decoded_hour m \<le> 24"
    "end_token_step (res_start r) e2 (decoded_hour m) (AM_PM_HOUR_GROUP m) = Some (s', e3, h, mer)"
    "r' = r\<lparr>res_text := res_text r @ match_0 m, res_start := s',
            res_end := Some (rollover date s'
               (end_meridiem s' (assign (assign e3 Hour h) Minute (decoded_minute m)) h mer))\<rparr>"
  using assms unfolding end_nf decoded_hour_def decoded_minute_def
  by (auto split: prod.splits if_splits Option.bind_splits)

lemma end_token_step_no_token:
  "end_token_step s e h None = Some (s', e', h', mer) \<Longrightarrow>
   s' = s \<and> e' = e \<and> h' = h \<and> mer = (if h \<ge> 12 then Meridiem_PM else - 1)"
  by (auto simp add: end_token_step_def)

lemma end_token_step_am:
  "end_token_step s e h (Some tok) = Some (s', e', h', mer) \<Longrightarrow> first_lower tok = Some CHR ''a'' \<Longrightarrow>
   s' = back_propagate s Meridiem_AM \<and> e' = (if h = 12 then midnight_day e else e) \<and>
   h' = (if h = 12 then 0 else h) \<and> mer = Meridiem_AM \<and> h \<le> 12"
  by (auto simp add: end_token_step_def split: if_splits)

lemma end_token_step_pm:
  "end_token_step s e h (Some tok) = Some (s', e', h', mer) \<Longrightarrow> first_lower tok = Some CHR ''p'' \<Longrightarrow>
   s' = back_propagate s Meridiem_PM \<and> e' = e \<and>
   h' = (if h \<noteq> 12 then h + 12 else h) \<and> mer = Meridiem_PM \<and> h \<le> 12"
  by (auto simp add: end_token_step_def split: if_splits)

lemma end_token_step_end:
  "end_token_step s e h tok = Some (s', e', h', mer) \<Longrightarrow>
   e' = (if (case tok of None \<Rightarrow> False | Some token \<Rightarrow> first_lower token = Some CHR ''a'' \<and> h = 12)
         then midnight_day e else e)"
  by (auto simp add: end_token_step_def split: option.splits if_splits)

lemma end_token_step_start:
  "end_token_step s e h tok = Some (s', e', h', mer) \<Longrightarrow>
   s' = (if tok = None then s else back_propagate s mer)"
  by (auto simp add: end_token_step_def split: option.splits if_splits)

lemma end_token_step_hour:
  "end_token_step s e h tok = Some (s', e', h', mer) \<Longrightarrow> 0 \<le> h \<Longrightarrow> h \<le> 24 \<Longrightarrow>
   0 \<le> h' \<and> h' \<le> 24"
  by (auto simp add: end_token_step_def split: option.splits if_splits)

lemma end_meridiem_value:
  "get (end_meridiem s e h mer) Meridiem =
     (if mer \<ge> 0 then Some mer
      else if isCertain s Meridiem \<and> get s Meridiem = Some Meridiem_PM \<and> to_number (get s Hour) > h
           then Some Meridiem_AM
      else if h > 12 then Some Meridiem_PM
      else get e Meridiem)"
  "isCertain (end_meridiem s e h mer) Meridiem =
     (if mer \<ge> 0 then True
      else if isCertain s Meridiem \<and> get s Meridiem = Some Meridiem_PM \<and> to_number (get s Hour) > h
           then False
      else if h > 12 then False
      else isCertain e Meridiem)"
  by (simp_all add: end_meridiem_def get_assign get_imply get_delete isCertain_assign
      isCertain_imply isCertain_delete)

section \<open>Meridiem of a range\<close>

lemma end_no_token:
  assumes "extractEndTimeComponent date r m = Some r'" and g: "AM_PM_HOUR_GROUP m = None"
  shows "res_start r' = res_start r \<and>
        (case res_end r' of
           None \<Rightarrow> False
         | Some e \<Rightarrow>
             get e Hour = Some (decoded_hour m) \<and>
             (if decoded_hour m \<ge> 12
              then get e Meridiem = Some Meridiem_PM \<and> isCertain e Meridiem
              else if isCertain (res_start r) Meridiem \<and>
                      get (res_start r) Meridiem = Some Meridiem_PM \<and>
                      to_number (get (res_start r) Hour) > decoded_hour m
                   then get e Meridiem = Some Meridiem_AM \<and> \<not> isCertain e Meridiem
              else get e Meridiem = get (res_start r) Meridiem \<and>
                   isCertain e Meridiem = isCertain (res_start r) Meridiem))"
proof -
  from assms(1) obtain e1 e2 s' e3 h mer where
    ms: "ms_step (MILLI_SECOND_GROUP m) (res_start r) = Some e1"
    and sec: "sec_step (SECOND_GROUP m) e1 = Some e2"
    and tok: "end_token_step (res_start r) e2 (decoded_hour m) (AM_PM_HOUR_GROUP m) = Some (s', e3, h, mer)"
    and r': "r' = r\<lparr>res_text := res_text r @ match_0 m, res_start := s',
            res_end := Some (rollover date s'
               (end_meridiem s' (assign (assign e3 Hour h) Minute (decoded_minute m)) h mer))\<rparr>"
    by (rule end_SomeE)
  from tok g have t: "s' = res_start r" "e3 = e2" "h = decoded_hour m"
    "mer = (if decoded_hour m \<ge> 12 then Meridiem_PM else - 1)"
    using end_token_step_no_token by simp_all
  have "same_at Meridiem e2 (res_start r)"
    using same_at_trans [OF sec_step_same [OF sec] ms_step_same [OF ms]] by simp
  then have e2: "get e2 Meridiem = get (res_start r) Meridiem"
    "isCertain e2 Meridiem = isCertain (res_start r) Meridiem"
    using same_at_get by simp_all
  show ?thesis
  proof (cases "decoded_hour m \<ge> 12")
    case True
    with t have "mer = Meridiem_PM" "mer \<ge> 0"
      by (simp_all add: Meridiem_PM_def)
    with True t show ?thesis
      by (simp add: r' rollover_get end_meridiem_get end_meridiem_value get_assign)
  next
    case False
    with t have "\<not> mer \<ge> 0" "\<not> h > 12"
      by simp_all
    with False t e2 show ?thesis
      by (simp add: r' rollover_get end_meridiem_get end_meridiem_value get_assign
          isCertain_assign)
  qed
qed

text \<open>
  Claim C3, as the source has it. In a successful range decode: when the end match has an
  AM/PM token and the meridiem of the start is not certain, a token in a or A makes the
  start AM with hour 12 turned into 0, and a token in p or P makes the start PM with 12
  added to every hour but 12. When the end match has no token the start is unchanged, the
  end hour is the decoded hour, and the meridiem of the end is PM and certain if that hour
  is at least 12; otherwise it is AM and implied if the start is certainly PM with a
  greater hour; otherwise it is the meridiem of the start with its tag.
\<close>

theorem range_meridiem_reconciliation:
  assumes "extractEndTimeComponent date r m = Some r'"
  shows
    "(\<forall>t rest. AM_PM_HOUR_GROUP m = Some (t # rest) \<and> \<not> isCertain (res_start r) Meridiem \<longrightarrow>
        (t = CHR ''a'' \<or> t = CHR ''A'' \<longrightarrow>
           get (res_start r') Meridiem = Some Meridiem_AM \<and>
           get (res_start r') Hour =
             (if get (res_start r) Hour = Some 12 then Some 0 else get (res_start r) Hour)) \<and>
        (t = CHR ''p'' \<or> t = CHR ''P'' \<longrightarrow>
           get (res_start r') Meridiem = Some Meridiem_PM \<and>
           get (res_start r') Hour =
             (if get (res_start r) Hour = Some 12 then Some 12
              else Some (to_number (get (res_start r) Hour) + 12)))) \<and>
     (AM_PM_HOUR_GROUP m = None \<longrightarrow>
        res_start r' = res_start r \<and>
        (case res_end r' of
           None \<Rightarrow> False
         | Some e \<Rightarrow>
             get e Hour = Some (decoded_hour m) \<and>
             (if decoded_hour m \<ge> 12
              then get e Meridiem = Some Meridiem_PM \<and> isCertain e Meridiem
              else if isCertain (res_start r) Meridiem \<and>
                      get (res_start r) Meridiem = Some Meridiem_PM \<and>
                      to_number (get (res_start r) Hour) > decoded_hour m
                   then get e Meridiem = Some Meridiem_AM \<and> \<not> isCertain e Meridiem
              else get e Meridiem = get (res_start r) Meridiem \<and>
                   isCertain e Meridiem = isCertain (res_start r) Meridiem)))"
proof -
  from assms obtain e1 e2 s' e3 h mer where
    ms: "ms_step (MILLI_SECOND_GROUP m) (res_start r) = Some e1"
    and sec: "sec_step (SECOND_GROUP m) e1 = Some e2"
    and tok: "end_token_step (res_start r) e2 (decoded_hour m) (AM_PM_HOUR_GROUP m) = Some (s', e3, h, mer)"
    and r': "r' = r\<lparr>res_text := res_text r @ match_0 m, res_start := s',
            res_end := Some (rollover date s'
               (end_meridiem s' (assign (assign e3 Hour h) Minute (decoded_minute m)) h mer))\<rparr>"
    by (rule end_SomeE)
  have am: "get (res_start r') Meridiem = Some Meridiem_AM \<and>
           get (res_start r') Hour =
             (if get (res_start r) Hour = Some 12 then Some 0 else get (res_start r) Hour)"
    if g: "AM_PM_HOUR_GROUP m = Some (t # rest)" and u: "\<not> isCertain (res_start r) Meridiem"
      and t: "t = CHR ''a'' \<or> t = CHR ''A''" for t rest
  proof -
    from t have "first_lower (t # rest) = Some CHR ''a''"
      by (simp add: first_lower_Cons toLowerCase_a)
    with tok g have "s' = back_propagate (res_start r) Meridiem_AM"
      using end_token_step_am by simp
    with u r' show ?thesis
      by (simp add: back_propagate_meridiem back_propagate_hour)
  qed
  have pm: "get (res_start r') Meridiem = Some Meridiem_PM \<and>
           get (res_start r') Hour =
             (if get (res_start r) Hour = Some 12 then Some 12
              else Some (to_number (get (res_start r) Hour) + 12))"
    if g: "AM_PM_HOUR_GROUP m = Some (t # rest)" and u: "\<not> isCertain (res_start r) Meridiem"
      and t: "t = CHR ''p'' \<or> t = CHR ''P''" for t rest
  proof -
    from t have "first_lower (t # rest) = Some CHR ''p''"
      by (simp add: first_lower_Cons toLowerCase_p)
    with tok g have "s' = back_propagate (res_start r) Meridiem_PM"
      using end_token_step_pm by simp
    with u r' show ?thesis
      by (simp add: back_propagate_meridiem back_propagate_hour Meridiem_AM_def Meridiem_PM_def)
  qed
  have no: "res_start r' = res_start r \<and>
        (case res_end r' of
           None \<Rightarrow> False
         | Some e \<Rightarrow>
             get e Hour = Some (decoded_hour m) \<and>
             (if decoded_hour m \<ge> 12
              then get e Meridiem = Some Meridiem_PM \<and> isCertain e Meridiem
              else if isCertain (res_start r) Meridiem \<and>
                      get (res_start r) Meridiem = Some Meridiem_PM \<and>
                      to_number (get (res_start r) Hour) > decoded_hour m
                   then get e Meridiem = Some Meridiem_AM \<and> \<not> isCertain e Meridiem
              else get e Meridiem = get (res_start r) Meridiem \<and>
                   isCertain e Meridiem = isCertain (res_start r) Meridiem))"
    if g: "AM_PM_HOUR_GROUP m = None"
    using assms g by (rule end_no_token)
  from am pm no show ?thesis by blast
qed

theorem range_meridiem_reconciliation_witness:
  "(case parser_extract date_getTime ctx_dated m_10 (Some f_11pm) of
      Inl i \<Rightarrow> False
    | Inr r \<Rightarrow>
        get (res_start r) Hour = Some 22 \<and> get (res_start r) Meridiem = Some Meridiem_PM \<and>
        (case res_end r of None \<Rightarrow> False | Some e \<Rightarrow> get e Hour = Some 23)) \<and>
   (case parser_extract date_getTime ctx_dated m_10pm (Some f_1) of
      Inl i \<Rightarrow> False
    | Inr r \<Rightarrow>
        get (res_start r) Hour = Some 22 \<and>
        (case res_end r of
           None \<Rightarrow> False
         | Some e \<Rightarrow> get e Hour = Some 1 \<and> get e Meridiem = Some Meridiem_AM \<and>
                     \<not> isCertain e Meridiem))"
proof -
  obtain c where c: "extractPrimaryTimeComponents ctx_dated m_10 = Some c"
    and cv: "\<not> isCertain c Meridiem" "get c Hour = Some 10"
  proof -
    have "(case extractPrimaryTimeComponents ctx_dated m_10 of
             None \<Rightarrow> False
           | Some c \<Rightarrow> \<not> isCertain c Meridiem \<and> get c Hour = Some 10)"
      by code_simp
    then show ?thesis
      using that by (auto split: option.splits)
  qed
  obtain d where d: "extractPrimaryTimeComponents ctx_dated m_10pm = Some d"
    and dv: "isCertain d Meridiem" "get d Meridiem = Some Meridiem_PM" "get d Hour = Some 22"
  proof -
    have "(case extractPrimaryTimeComponents ctx_dated m_10pm of
             None \<Rightarrow> False
           | Some c \<Rightarrow> isCertain c Meridiem \<and> get c Meridiem = Some Meridiem_PM \<and>
                       get c Hour = Some 22)"
      by code_simp
    then show ?thesis
      using that by (auto split: option.splits)
  qed
  have ok: "\<not> malformed_time f_11pm" "\<not> malformed_time f_1"
    "\<not> timezone_like (match_0 f_11pm)" "\<not> timezone_like (match_0 f_1)"
    by code_simp+
  obtain r1 where r1: "extractEndTimeComponent date_getTime (start_only m_10 c) f_11pm = Some r1"
    using ok(1) end_fails [of date_getTime "start_only m_10 c" f_11pm] by auto
  obtain r2 where r2: "extractEndTimeComponent date_getTime (start_only m_10pm d) f_1 = Some r2"
    using ok(2) end_fails [of date_getTime "start_only m_10pm d" f_1] by auto
  have x1: "parser_extract date_getTime ctx_dated m_10 (Some f_11pm) = Inr r1"
    using c r1 ok by (simp add: extract_nf)
  have x2: "parser_extract date_getTime ctx_dated m_10pm (Some f_1) = Inr r2"
    using d r2 ok by (simp add: extract_nf)
  have tok: "AM_PM_HOUR_GROUP f_11pm = Some (CHR ''p'' # ''m'')" "AM_PM_HOUR_GROUP f_1 = None"
    "decoded_hour f_1 = 1"
    by (simp_all add: example_defs eval_defs)
  have e1: "(case res_end r1 of None \<Rightarrow> False | Some e \<Rightarrow> get e Hour = Some 23)"
  proof -
    have "(case parser_extract date_getTime ctx_dated m_10 (Some f_11pm) of
            Inl i \<Rightarrow> False
          | Inr r \<Rightarrow> (case res_end r of None \<Rightarrow> False | Some e \<Rightarrow> get e Hour = Some 23))"
      by code_simp
    with x1 show ?thesis by simp
  qed
  have s1: "get (res_start r1) Hour = Some 22 \<and> get (res_start r1) Meridiem = Some Meridiem_PM"
    using range_meridiem_reconciliation [OF r1] tok(1) cv
    by (simp add: start_only_def to_number_def)
  have s2: "res_start r2 = d \<and>
     (case res_end r2 of
        None \<Rightarrow> False
      | Some e \<Rightarrow> get e Hour = Some 1 \<and> get e Meridiem = Some Meridiem_AM \<and>
                  \<not> isCertain e Meridiem)"
    using range_meridiem_reconciliation [OF r2] tok(2,3) dv
    by (simp add: start_only_def to_number_def split: option.splits)
  show ?thesis
    unfolding x1 x2 using e1 s1 s2 dv by simp
qed

text \<open>
  Claim C3, as the spec states it, fails on \<^verbatim>\<open>10pm-12\<close>: the end match has no token, the
  start is certainly PM with hour 22, above the end hour 12, and yet the meridiem of the
  end is not inferred as AM: it is PM, and tagged certain.
\<close>

theorem range_meridiem_reconciliation_counterexample:
  "AM_PM_HOUR_GROUP f_12 = None \<and>
   (case parser_extract date_getTime ctx_dated m_10pm (Some f_12) of
      Inl i \<Rightarrow> False
    | Inr r \<Rightarrow>
        isCertain (res_start r) Meridiem \<and> get (res_start r) Meridiem = Some Meridiem_PM \<and>
        get (res_start r) Hour = Some 22 \<and>
        (case res_end r of
           None \<Rightarrow> False
         | Some e \<Rightarrow> get e Hour = Some 12 \<and> get e Meridiem = Some Meridiem_PM \<and>
                     get e Meridiem \<noteq> Some Meridiem_AM \<and> isCertain e Meridiem))"
  by code_simp

section \<open>What the end inherits from the start\<close>

lemma end_token_step_same:
  assumes "end_token_step s e h tok = Some (s', e', h', mer)"
  shows "k \<noteq> Day \<Longrightarrow> same_at k e' e" and "k \<notin> {Meridiem, Hour} \<Longrightarrow> same_at k s' s"
proof -
  show "same_at k e' e" if "k \<noteq> Day"
    using end_token_step_end [OF assms] that
    by (simp add: midnight_day_same same_at_refl)
  show "same_at k s' s" if "k \<notin> {Meridiem, Hour}"
    using end_token_step_start [OF assms] that
    by (simp add: back_propagate_same same_at_refl)
qed

lemma end_same:
  assumes "extractEndTimeComponent date r m = Some r'" and "res_end r' = Some e"
    and "k \<notin> {Hour, Minute, Meridiem, Day}"
    and "k = Second \<longrightarrow> SECOND_GROUP m = None"
    and "k = Millisecond \<longrightarrow> MILLI_SECOND_GROUP m = None"
  shows "same_at k e (res_start r) \<and> same_at k (res_start r') (res_start r)"
proof -
  from assms(1) obtain e1 e2 s' e3 h mer where
    ms: "ms_step (MILLI_SECOND_GROUP m) (res_start r) = Some e1"
    and sec: "sec_step (SECOND_GROUP m) e1 = Some e2"
    and tok: "end_token_step (res_start r) e2 (decoded_hour m) (AM_PM_HOUR_GROUP m) = Some (s', e3, h, mer)"
    and r': "r' = r\<lparr>res_text := res_text r @ match_0 m, res_start := s',
            res_end := Some (rollover date s'
               (end_meridiem s' (assign (assign e3 Hour h) Minute (decoded_minute m)) h mer))\<rparr>"
    by (rule end_SomeE)
  have a1: "same_at k e1 (res_start r)"
  proof (cases "k = Millisecond")
    case True
    with assms(5) ms show ?thesis by (simp add: ms_step_def same_at_refl)
  next
    case False
    with ms show ?thesis by (rule ms_step_same)
  qed
  have a2: "same_at k e2 e1"
  proof (cases "k = Second")
    case True
    with assms(4) sec show ?thesis by (simp add: sec_step_def same_at_refl)
  next
    case False
    with sec show ?thesis by (rule sec_step_same)
  qed
  have a3: "same_at k e3 e2" "same_at k s' (res_start r)"
    using end_token_step_same [OF tok] assms(3) by simp_all
  have a4: "same_at k (assign (assign e3 Hour h) Minute (decoded_minute m)) e3"
    using assms(3) by (simp add: same_at_def assign_def)
  have "same_at k (rollover date s'
               (end_meridiem s' (assign (assign e3 Hour h) Minute (decoded_minute m)) h mer))
             (assign (assign e3 Hour h) Minute (decoded_minute m))"
    using assms(3) by (simp add: same_at_def rollover_def end_meridiem_def imply_def assign_def delete_def)
  with assms(2) r' have a5: "same_at k e (assign (assign e3 Hour h) Minute (decoded_minute m))"
    by simp
  from a1 a2 a3 a4 a5 r' show ?thesis
    by (simp add: same_at_def)
qed

lemma same_at_sym: "same_at k a b \<Longrightarrow> same_at k b a"
  by (simp add: same_at_def)

text \<open>
  Claim C10, as the source has it. In a successful range decode the end holds the year and
  the month of the returned start, with their tags; without a seconds group its second,
  and without a fractional group its millisecond; and its meridiem, when the end match has
  no AM/PM token, its decoded hour is below 12, and the start is not certainly PM with a
  greater hour.
\<close>

theorem end_inherits_start:
  assumes "extractEndTimeComponent date r m = Some r'" and "res_end r' = Some e"
  shows
    "get e Year = get (res_start r') Year \<and> isCertain e Year = isCertain (res_start r') Year \<and>
     get e Month = get (res_start r') Month \<and> isCertain e Month = isCertain (res_start r') Month \<and>
     (SECOND_GROUP m = None \<longrightarrow>
        get e Second = get (res_start r') Second \<and>
        isCertain e Second = isCertain (res_start r') Second) \<and>
     (MILLI_SECOND_GROUP m = None \<longrightarrow>
        get e Millisecond = get (res_start r') Millisecond \<and>
        isCertain e Millisecond = isCertain (res_start r') Millisecond) \<and>
     (AM_PM_HOUR_GROUP m = None \<and> decoded_hour m < 12 \<and>
      \<not> (isCertain (res_start r') Meridiem \<and> get (res_start r') Meridiem = Some Meridiem_PM \<and>
         to_number (get (res_start r') Hour) > decoded_hour m) \<longrightarrow>
        get e Meridiem = get (res_start r') Meridiem \<and>
        isCertain e Meridiem = isCertain (res_start r') Meridiem)"
proof -
  have fr: "get e k = get (res_start r') k \<and> isCertain e k = isCertain (res_start r') k"
    if "k \<notin> {Hour, Minute, Meridiem, Day}" "k = Second \<longrightarrow> SECOND_GROUP m = None"
      "k = Millisecond \<longrightarrow> MILLI_SECOND_GROUP m = None" for k
  proof -
    from end_same [OF assms that]
    have "same_at k e (res_start r')"
      by (blast intro: same_at_trans same_at_sym)
    then show ?thesis by (rule same_at_get)
  qed
  have mer: "get e Meridiem = get (res_start r') Meridiem \<and>
        isCertain e Meridiem = isCertain (res_start r') Meridiem"
    if "AM_PM_HOUR_GROUP m = None" "decoded_hour m < 12"
      "\<not> (isCertain (res_start r') Meridiem \<and> get (res_start r') Meridiem = Some Meridiem_PM \<and>
         to_number (get (res_start r') Hour) > decoded_hour m)"
    using end_no_token [OF assms(1) that(1)] assms(2) that(2,3) by auto
  from fr [of Year] fr [of Month] fr [of Second] fr [of Millisecond] mer
  show ?thesis by simp
qed

theorem end_inherits_start_witness:
  "(case parser_extract date_getTime ctx_dated m_10 (Some f_11) of
      Inl i \<Rightarrow> False
    | Inr r \<Rightarrow>
        (case res_end r of
           None \<Rightarrow> False
         | Some e \<Rightarrow>
             get e Hour = Some 11 \<and>
             get e Meridiem = Some Meridiem_AM \<and> \<not> isCertain e Meridiem \<and>
             get e Second = Some 0 \<and> \<not> isCertain e Second \<and>
             get e Millisecond = Some 0 \<and> \<not> isCertain e Millisecond \<and>
             get e Year = Some 2016 \<and> get e Month = Some 10))"
proof -
  obtain c where c: "extractPrimaryTimeComponents ctx_dated m_10 = Some c"
    and cv: "\<not> isCertain c Meridiem" "get c Meridiem = Some Meridiem_AM"
      "get c Second = Some 0" "\<not> isCertain c Second"
      "get c Millisecond = Some 0" "\<not> isCertain c Millisecond"
      "get c Year = Some 2016" "get c Month = Some 10"
  proof -
    have "(case extractPrimaryTimeComponents ctx_dated m_10 of
             None \<Rightarrow> False
           | Some c \<Rightarrow>
               \<not> isCertain c Meridiem \<and> get c Meridiem = Some Meridiem_AM \<and>
               get c Second = Some 0 \<and> \<not> isCertain c Second \<and>
               get c Millisecond = Some 0 \<and> \<not> isCertain c Millisecond \<and>
               get c Year = Some 2016 \<and> get c Month = Some 10)"
      by code_simp
    then show ?thesis
      using that by (auto split: option.splits)
  qed
  have ok: "\<not> malformed_time f_11" "\<not> timezone_like (match_0 f_11)"
    by code_simp+
  obtain r where r: "extractEndTimeComponent date_getTime (start_only m_10 c) f_11 = Some r"
    using ok(1) end_fails [of date_getTime "start_only m_10 c" f_11] by auto
  have x: "parser_extract date_getTime ctx_dated m_10 (Some f_11) = Inr r"
    using c r ok by (simp add: extract_nf)
  have g: "AM_PM_HOUR_GROUP f_11 = None" "SECOND_GROUP f_11 = None"
    "MILLI_SECOND_GROUP f_11 = None" "decoded_hour f_11 = 11"
    by (simp_all add: example_defs eval_defs)
  from end_no_token [OF r g(1)] obtain e where e: "res_end r = Some e"
    and s: "res_start r = c" and h: "get e Hour = Some 11"
    by (auto simp add: start_only_def g(4) split: option.splits)
  show ?thesis
    unfolding x using end_inherits_start [OF r e] e s h g cv by simp
qed

text \<open>
  Claim C10, as the spec states it, fails on \<^verbatim>\<open>10-12\<close>: the end match has no token, the
  start is not certainly PM and the end hour 12 is not above 12, so neither inference
  applies, and yet the end does not keep the implied AM of the start: its meridiem is PM
  and certain.
\<close>

theorem end_inherits_start_counterexample:
  "AM_PM_HOUR_GROUP f_12 = None \<and>
   (case parser_extract date_getTime ctx_dated m_10 (Some f_12) of
      Inl i \<Rightarrow> False
    | Inr r \<Rightarrow>
        get (res_start r) Meridiem = Some Meridiem_AM \<and> \<not> isCertain (res_start r) Meridiem \<and>
        get (res_start r) Hour = Some 10 \<and>
        (case res_end r of
           None \<Rightarrow> False
         | Some e \<Rightarrow> get e Hour = Some 12 \<and> \<not> 12 < (12::int) \<and>
                     get e Meridiem = Some Meridiem_PM \<and> isCertain e Meridiem \<and>
                     get e Meridiem \<noteq> get (res_start r) Meridiem))"
  by code_simp

section \<open>The day of the end\<close>

lemma primary_same:
  assumes "extractPrimaryTimeComponents ctx m = Some c"
    and "k \<notin> {Hour, Minute, Meridiem, Second, Millisecond}"
  shows "same_at k c (createParsingComponents ctx)"
proof -
  from assms(1) obtain h mer c1 where
    ms: "ms_step (MILLI_SECOND_GROUP m)
       (store_step (createParsingComponents ctx) h (decoded_minute m) mer) = Some c1"
    and sec: "sec_step (SECOND_GROUP m) c1 = Some c"
    by (rule primary_SomeE)
  from assms(2) have "same_at k c c1" "same_at k c1 (store_step (createParsingComponents ctx) h (decoded_minute m) mer)"
    "same_at k (store_step (createParsingComponents ctx) h (decoded_minute m) mer) (createParsingComponents ctx)"
    using sec_step_same [OF sec] ms_step_same [OF ms] store_step_same by simp_all
  then show ?thesis
    by (blast intro: same_at_trans)
qed

text \<open>The end before the test of lines 338 to 340, as far as its day goes.\<close>

lemma end_day:
  assumes "extractEndTimeComponent date r m = Some r'"
  obtains e0 where "res_end r' = Some (rollover date (res_start r') e0)"
    "knownValues e0 Day = knownValues (res_start r) Day"
    "impliedValues e0 Day =
       (if midnight_end m \<and> \<not> isCertain (res_start r) Day
        then Some (to_number (get (res_start r) Day) + 1)
        else impliedValues (res_start r) Day)"
    "same_at Day (res_start r') (res_start r)"
proof -
  from assms(1) obtain e1 e2 s' e3 h mer where
    ms: "ms_step (MILLI_SECOND_GROUP m) (res_start r) = Some e1"
    and sec: "sec_step (SECOND_GROUP m) e1 = Some e2"
    and tok: "end_token_step (res_start r) e2 (decoded_hour m) (AM_PM_HOUR_GROUP m) = Some (s', e3, h, mer)"
    and r': "r' = r\<lparr>res_text := res_text r @ match_0 m, res_start := s',
            res_end := Some (rollover date s'
               (end_meridiem s' (assign (assign e3 Hour h) Minute (decoded_minute m)) h mer))\<rparr>"
    by (rule end_SomeE)
  let ?e0 = "end_meridiem s' (assign (assign e3 Hour h) Minute (decoded_minute m)) h mer"
  have e2: "same_at Day e2 (res_start r)"
    using same_at_trans [OF sec_step_same [OF sec] ms_step_same [OF ms]] by simp
  have e3: "e3 = (if midnight_end m then midnight_day e2 else e2)"
    using end_token_step_end [OF tok] by (simp add: midnight_end_def)
  have e0: "same_at Day ?e0 e3"
    by (simp add: same_at_def end_meridiem_def assign_def imply_def delete_def)
  have s': "same_at Day s' (res_start r)"
    using end_token_step_same(2) [OF tok] by simp
  have k: "knownValues ?e0 Day = knownValues (res_start r) Day"
    using e0 e2 e3 by (simp add: same_at_def midnight_day_def imply_def)
  have i: "impliedValues ?e0 Day =
       (if midnight_end m \<and> \<not> isCertain (res_start r) Day
        then Some (to_number (get (res_start r) Day) + 1)
        else impliedValues (res_start r) Day)"
    using e0 e2 e3 same_at_get [OF e2]
    by (simp add: same_at_def midnight_day_def imply_def isCertain_def)
  show ?thesis
    using that [of ?e0] k i s' r' by simp
qed

lemma on_day_of_rollover:
  assumes "knownValues e0 Day = None" and "impliedValues s Day = impliedValues e0 Day"
  shows "on_day_of s (rollover date s' e0) = e0"
proof -
  have "e0\<lparr>impliedValues := (impliedValues e0)(Day := impliedValues e0 Day)\<rparr> = e0"
    by simp
  with assms show ?thesis
    by (simp add: rollover_def on_day_of_def imply_def)
qed

lemma imply_on_day_of_rollover:
  assumes "knownValues e0 Day = None" and "impliedValues e0 Day = Some v"
  shows "imply (on_day_of s (rollover date s' e0)) Day v = e0"
proof -
  have "(impliedValues e0)(Day \<mapsto> v) = impliedValues e0"
    using assms(2) by (simp add: fun_upd_idem)
  then have "e0\<lparr>impliedValues := (impliedValues e0)(Day \<mapsto> v)\<rparr> = e0"
    by simp
  with assms(1) show ?thesis
    by (simp add: rollover_def on_day_of_def imply_def)
qed

text \<open>
  Claim C4, as the source has it. In a successful range extraction the day of the end is
  never certain. Unless the end match is 12 with an AM token: if the end, put on the day
  of the start, lies strictly before the start, the day of the end is the day of the start
  plus 1, and otherwise the end keeps the day of the start. When the end match is 12 with
  an AM token, line 293 has moved the end to the next day before the test: the day of the
  end is the day of the start plus 1, or plus 2 if the end on that next day still lies
  before the start.
\<close>

theorem range_rollover:
  assumes "parser_extract date ctx m (Some f) = Inr r" and "res_end r = Some e"
  shows
    "\<not> isCertain e Day \<and>
     (\<not> midnight_end f \<longrightarrow>
        (if date (on_day_of (res_start r) e) < date (res_start r)
         then get e Day = Some (to_number (get (res_start r) Day) + 1)
         else get e Day = get (res_start r) Day)) \<and>
     (midnight_end f \<longrightarrow>
        (if date (imply (on_day_of (res_start r) e) Day (to_number (get (res_start r) Day) + 1))
              < date (res_start r)
         then get e Day = Some (to_number (get (res_start r) Day) + 2)
         else get e Day = Some (to_number (get (res_start r) Day) + 1)))"
proof -
  from assms obtain c where c: "extractPrimaryTimeComponents ctx m = Some c"
    and e: "extractEndTimeComponent date (start_only m c) f = Some r"
    by (auto simp add: extract_nf start_only_def split: option.splits if_splits)
  have cd: "knownValues c Day = None"
    using primary_same [OF c, of Day] by (simp add: same_at_def createParsingComponents_def)
  from e obtain e0 where
    r: "res_end r = Some (rollover date (res_start r) e0)"
    and k: "knownValues e0 Day = knownValues (res_start (start_only m c)) Day"
    and i: "impliedValues e0 Day =
       (if midnight_end f \<and> \<not> isCertain (res_start (start_only m c)) Day
        then Some (to_number (get (res_start (start_only m c)) Day) + 1)
        else impliedValues (res_start (start_only m c)) Day)"
    and s: "same_at Day (res_start r) (res_start (start_only m c))"
    by (rule end_day)
  let ?s = "res_start r"
  from s cd have sk: "knownValues ?s Day = None" and si: "impliedValues ?s Day = impliedValues c Day"
    by (simp_all add: same_at_def start_only_def)
  from k cd have k0: "knownValues e0 Day = None"
    by (simp add: start_only_def)
  from i cd have i0: "impliedValues e0 Day =
       (if midnight_end f then Some (to_number (impliedValues c Day) + 1) else impliedValues c Day)"
    by (simp add: start_only_def isCertain_def get_def)
  from r assms(2) have ee: "e = rollover date ?s e0"
    by simp
  have gs: "get ?s Day = impliedValues c Day"
    using sk si by (simp add: get_def)
  have "isCertain e Day = isCertain e0 Day"
    by (simp add: ee rollover_get)
  with k0 have cert: "\<not> isCertain e Day"
    by (simp add: isCertain_def)
  have rewind: "on_day_of ?s e = e0" if "\<not> midnight_end f"
    unfolding ee using k0 i0 si that by (intro on_day_of_rollover) simp_all
  have rewind_next: "imply (on_day_of ?s e) Day (to_number (get ?s Day) + 1) = e0"
    if "midnight_end f"
    unfolding ee using k0 i0 gs that by (intro imply_on_day_of_rollover) simp_all
  have day: "get e Day = (if date e0 < date ?s then Some (to_number (impliedValues e0 Day) + 1)
                          else impliedValues e0 Day)"
    using k0 by (simp add: ee rollover_def get_def imply_def)
  show ?thesis
    using cert rewind rewind_next day i0 gs by (auto simp add: to_number_def)
qed

theorem range_rollover_witness:
  "(case parser_extract date_getTime ctx_dated m_11pm (Some f_1am) of
      Inl i \<Rightarrow> False
    | Inr r \<Rightarrow>
        get (res_start r) Day = Some 1 \<and>
        (case res_end r of
           None \<Rightarrow> False
         | Some e \<Rightarrow> get e Hour = Some 1 \<and> get e Day = Some 2)) \<and>
   (case parser_extract date_getTime ctx_dated m_10 (Some f_11pm) of
      Inl i \<Rightarrow> False
    | Inr r \<Rightarrow>
        get (res_start r) Day = Some 1 \<and>
        (case res_end r of
           None \<Rightarrow> False
         | Some e \<Rightarrow> get e Hour = Some 23 \<and> get e Day = Some 1)) \<and>
   (case parser_extract date_getTime ctx_dated m_11pm (Some f_12am) of
      Inl i \<Rightarrow> False
    | Inr r \<Rightarrow>
        get (res_start r) Day = Some 1 \<and>
        (case res_end r of
           None \<Rightarrow> False
         | Some e \<Rightarrow> get e Hour = Some 0 \<and> get e Day = Some 2))"
proof -
  have m: "\<not> midnight_end f_1am" "\<not> midnight_end f_11pm" "midnight_end f_12am"
    by code_simp+
  obtain r1 e1 where x1: "parser_extract date_getTime ctx_dated m_11pm (Some f_1am) = Inr r1"
    and y1: "res_end r1 = Some e1"
    and v1: "get (res_start r1) Day = Some 1" "get e1 Hour = Some 1"
      "date_getTime (on_day_of (res_start r1) e1) < date_getTime (res_start r1)"
  proof -
    have "(case parser_extract date_getTime ctx_dated m_11pm (Some f_1am) of
            Inl i \<Rightarrow> False
          | Inr r \<Rightarrow>
              get (res_start r) Day = Some 1 \<and>
              (case res_end r of
                 None \<Rightarrow> False
               | Some e \<Rightarrow> get e Hour = Some 1 \<and>
                   date_getTime (on_day_of (res_start r) e) < date_getTime (res_start r)))"
      by code_simp
    then show ?thesis
      using that by (auto split: sum.splits option.splits)
  qed
  obtain r2 e2 where x2: "parser_extract date_getTime ctx_dated m_10 (Some f_11pm) = Inr r2"
    and y2: "res_end r2 = Some e2"
    and v2: "get (res_start r2) Day = Some 1" "get e2 Hour = Some 23"
      "\<not> date_getTime (on_day_of (res_start r2) e2) < date_getTime (res_start r2)"
  proof -
    have "(case parser_extract date_getTime ctx_dated m_10 (Some f_11pm) of
            Inl i \<Rightarrow> False
          | Inr r \<Rightarrow>
              get (res_start r) Day = Some 1 \<and>
              (case res_end r of
                 None \<Rightarrow> False
               | Some e \<Rightarrow> get e Hour = Some 23 \<and>
                   \<not> date_getTime (on_day_of (res_start r) e) < date_getTime (res_start r)))"
      by code_simp
    then show ?thesis
      using that by (auto split: sum.splits option.splits)
  qed
  obtain r3 e3 where x3: "parser_extract date_getTime ctx_dated m_11pm (Some f_12am) = Inr r3"
    and y3: "res_end r3 = Some e3"
    and v3: "get (res_start r3) Day = Some 1" "get e3 Hour = Some 0"
      "\<not> date_getTime (imply (on_day_of (res_start r3) e3) Day 2) < date_getTime (res_start r3)"
  proof -
    have "(case parser_extract date_getTime ctx_dated m_11pm (Some f_12am) of
            Inl i \<Rightarrow> False
          | Inr r \<Rightarrow>
              get (res_start r) Day = Some 1 \<and>
              (case res_end r of
                 None \<Rightarrow> False
               | Some e \<Rightarrow> get e Hour = Some 0 \<and>
                   \<not> date_getTime (imply (on_day_of (res_start r) e) Day 2)
                       < date_getTime (res_start r)))"
      by code_simp
    then show ?thesis
      using that by (auto split: sum.splits option.splits)
  qed
  have d1: "get e1 Day = Some 2"
    using range_rollover [OF x1 y1] m(1) v1 by (simp add: to_number_def)
  have d2: "get e2 Day = Some 1"
    using range_rollover [OF x2 y2] m(2) v2 by (simp add: to_number_def)
  have d3: "get e3 Day = Some 2"
    using range_rollover [OF x3 y3] m(3) v3 by (simp add: to_number_def)
  show ?thesis
    unfolding x1 x2 x3 using y1 y2 y3 v1 v2 v3 d1 d2 d3 by simp
qed

text \<open>
  Claim C4, as the spec states it, fails on \<^verbatim>\<open>12am-12am\<close>: the end put on the day of the
  start is at the instant of the start, not strictly before it, and yet the end does not
  keep the day of the start: its day is 2, the start's is 1.
\<close>

theorem range_rollover_counterexample:
  "(case parser_extract date_getTime ctx_dated m_12am (Some f_12am) of
      Inl i \<Rightarrow> False
    | Inr r \<Rightarrow>
        get (res_start r) Day = Some 1 \<and> get (res_start r) Hour = Some 0 \<and>
        (case res_end r of
           None \<Rightarrow> False
         | Some e \<Rightarrow>
             get e Hour = Some 0 \<and>
             \<not> date_getTime (on_day_of (res_start r) e) < date_getTime (res_start r) \<and>
             get e Day = Some 2))"
  by code_simp

section \<open>Ranges of the time fields\<close>

lemma digit_value_nonneg: "is_digit c \<Longrightarrow> 0 \<le> digit_value c"
  by (auto simp add: is_digit_def digit_value_def)

lemma foldl_digits_nonneg:
  "list_all is_digit s \<Longrightarrow> 0 \<le> a \<Longrightarrow> 0 \<le> foldl (\<lambda>a c. 10 * a + digit_value c) a s"
proof (induction s arbitrary: a)
  case Nil
  then show ?case by simp
next
  case (Cons c s)
  from Cons.prems have "0 \<le> 10 * a + digit_value c"
    using digit_value_nonneg [of c] by simp
  with Cons show ?case by simp
qed

lemma parseInt_nonneg: "list_all is_digit s \<Longrightarrow> 0 \<le> parseInt s"
  by (simp add: parseInt_def foldl_digits_nonneg)

lemma parseInt_take_nonneg: "list_all is_digit s \<Longrightarrow> 0 \<le> parseInt (take n s)"
  by (rule parseInt_nonneg) (auto simp add: list_all_iff dest: in_set_takeD)

lemma decoded_nonneg:
  assumes "grammar_match m"
  shows "0 \<le> decoded_hour m \<and> 0 \<le> decoded_minute m"
proof -
  from assms have h: "0 \<le> parseInt (HOUR_GROUP m)"
    by (simp add: grammar_match_def digits_def parseInt_nonneg)
  show ?thesis
  proof (cases "MINUTE_GROUP m")
    case None
    with h show ?thesis
      by (simp add: decoded_hour_def decoded_minute_def spec_hour_minute_def Let_def
          pos_imp_zdiv_nonneg_iff)
  next
    case (Some s)
    with assms have "0 \<le> parseInt s"
      by (simp add: grammar_match_def opt_digits_def digits_def parseInt_nonneg)
    with h Some show ?thesis
      by (simp add: decoded_hour_def decoded_minute_def spec_hour_minute_def Let_def)
  qed
qed

lemma token_step_hour:
  "token_step h0 tok = Some (h, mer) \<Longrightarrow> 0 \<le> h0 \<Longrightarrow> h0 \<le> 24 \<Longrightarrow>
   0 \<le> h \<and> h \<le> 24 \<and> (mer = None \<longrightarrow> h < 12)"
  by (auto simp add: token_step_def split: option.splits if_splits)

lemma sec_step_range:
  assumes "sec_step g c = Some c'" and "opt_digits 2 g" and "opt_range (get c Second) 0 59"
  shows "opt_range (get c' Second) 0 59"
proof (cases g)
  case None
  with assms show ?thesis by (simp add: sec_step_def)
next
  case (Some s)
  with assms(2) have "0 \<le> parseInt s"
    by (simp add: opt_digits_def digits_def parseInt_nonneg)
  with Some assms(1) show ?thesis
    by (auto simp add: sec_step_def opt_range_def get_assign split: if_splits)
qed

lemma ms_step_range:
  assumes "ms_step g c = Some c'" and "opt_digits 6 g" and "opt_range (get c Millisecond) 0 999"
  shows "opt_range (get c' Millisecond) 0 999"
proof (cases g)
  case None
  with assms show ?thesis by (simp add: ms_step_def)
next
  case (Some s)
  with assms(2) have "0 \<le> parseInt (take 3 s)"
    by (simp add: opt_digits_def digits_def parseInt_take_nonneg)
  with Some assms(1) show ?thesis
    by (auto simp add: ms_step_def opt_range_def get_assign split: if_splits)
qed

lemma primary_in_range:
  assumes c: "extractPrimaryTimeComponents ctx m = Some c" and g: "grammar_match m"
    and ds: "opt_range (defaults ctx Second) 0 59"
    and dm: "opt_range (defaults ctx Millisecond) 0 999"
  shows "time_in_range 24 c \<and> (\<not> isCertain c Meridiem \<longrightarrow> in_range (get c Hour) 0 11)"
proof -
  from c obtain h mer c1 where
    mi: "decoded_minute m < 60" and h24: "decoded_hour m \<le> 24"
    and tok: "token_step (decoded_hour m) (AM_PM_HOUR_GROUP m) = Some (h, mer)"
    and ms: "ms_step (MILLI_SECOND_GROUP m)
       (store_step (createParsingComponents ctx) h (decoded_minute m) mer) = Some c1"
    and sec: "sec_step (SECOND_GROUP m) c1 = Some c"
    by (rule primary_SomeE)
  let ?st = "store_step (createParsingComponents ctx) h (decoded_minute m) mer"
  from c obtain h' mer' where
    tok': "token_step (decoded_hour m) (AM_PM_HOUR_GROUP m) = Some (h', mer')"
    and f: "get c Hour = Some h'" "get c Minute = Some (decoded_minute m)"
      "isCertain c Meridiem = (mer' \<noteq> None)"
    by (rule primary_fields)
  from tok tok' have same: "h' = h" "mer' = mer" by simp_all
  have hr: "0 \<le> h \<and> h \<le> 24 \<and> (mer = None \<longrightarrow> h < 12)"
    using token_step_hour [OF tok] decoded_nonneg [OF g] h24 by simp
  have st: "get ?st Second = defaults ctx Second" "get ?st Millisecond = defaults ctx Millisecond"
    using same_at_get [OF store_step_same, of Second "createParsingComponents ctx" h "decoded_minute m" mer]
      same_at_get [OF store_step_same, of Millisecond "createParsingComponents ctx" h "decoded_minute m" mer]
    by (simp_all add: get_fresh)
  have c1s: "opt_range (get c1 Second) 0 59"
    using same_at_get [OF ms_step_same [OF ms], of Second] st ds by simp
  have c1m: "opt_range (get c1 Millisecond) 0 999"
    using ms_step_range [OF ms] g st dm by (simp add: grammar_match_def)
  have cs: "opt_range (get c Second) 0 59"
    using sec_step_range [OF sec] g c1s by (simp add: grammar_match_def)
  have cm: "opt_range (get c Millisecond) 0 999"
    using same_at_get [OF sec_step_same [OF sec], of Millisecond] c1m by simp
  show ?thesis
    using f same hr mi decoded_nonneg [OF g] cs cm
    by (auto simp add: time_in_range_def in_range_def)
qed

lemma back_propagate_in_range:
  assumes "time_in_range 24 s" and "\<not> isCertain s Meridiem \<longrightarrow> in_range (get s Hour) 0 11"
  shows "time_in_range 24 (back_propagate s mer)"
proof (cases "isCertain s Meridiem")
  case True
  with assms(1) show ?thesis by (simp add: back_propagate_certain)
next
  case False
  have fr: "get (back_propagate s mer) k = get s k" if "k \<notin> {Meridiem, Hour}" for k
    using same_at_get [OF back_propagate_same [OF that]] by simp
  from False assms(2) obtain x where x: "get s Hour = Some x" "0 \<le> x" "x \<le> 11"
    by (auto simp add: in_range_def split: option.splits)
  with False have "in_range (get (back_propagate s mer) Hour) 0 24"
    by (simp add: back_propagate_hour in_range_def to_number_def)
  with assms(1) show ?thesis
    by (simp add: time_in_range_def fr)
qed

lemma end_in_range:
  assumes e: "extractEndTimeComponent date r m = Some r'" and g: "grammar_match m"
    and s: "time_in_range 24 (res_start r)"
    and u: "\<not> isCertain (res_start r) Meridiem \<longrightarrow> in_range (get (res_start r) Hour) 0 11"
  shows "time_in_range 24 (res_start r') \<and>
         (case res_end r' of None \<Rightarrow> False | Some e \<Rightarrow> time_in_range 24 e)"
proof -
  from e obtain e1 e2 s' e3 h mer where
    ms: "ms_step (MILLI_SECOND_GROUP m) (res_start r) = Some e1"
    and sec: "sec_step (SECOND_GROUP m) e1 = Some e2"
    and mi: "decoded_minute m < 60" and h24: "decoded_hour m \<le> 24"
    and tok: "end_token_step (res_start r) e2 (decoded_hour m) (AM_PM_HOUR_GROUP m) = Some (s', e3, h, mer)"
    and r': "r' = r\<lparr>res_text := res_text r @ match_0 m, res_start := s',
            res_end := Some (rollover date s'
               (end_meridiem s' (assign (assign e3 Hour h) Minute (decoded_minute m)) h mer))\<rparr>"
    by (rule end_SomeE)
  let ?e = "rollover date s' (end_meridiem s' (assign (assign e3 Hour h) Minute (decoded_minute m)) h mer)"
  have hr: "0 \<le> h \<and> h \<le> 24"
    using end_token_step_hour [OF tok] decoded_nonneg [OF g] h24 by simp
  have e1m: "opt_range (get e1 Millisecond) 0 999"
    using ms_step_range [OF ms] g s by (simp add: grammar_match_def time_in_range_def)
  have e1s: "opt_range (get e1 Second) 0 59"
    using same_at_get [OF ms_step_same [OF ms], of Second] s by (simp add: time_in_range_def)
  have e2s: "opt_range (get e2 Second) 0 59"
    using sec_step_range [OF sec] g e1s by (simp add: grammar_match_def)
  have e2m: "opt_range (get e2 Millisecond) 0 999"
    using same_at_get [OF sec_step_same [OF sec], of Millisecond] e1m by simp
  have e3f: "get e3 Second = get e2 Second" "get e3 Millisecond = get e2 Millisecond"
    using same_at_get [OF end_token_step_same(1) [OF tok], of Second]
      same_at_get [OF end_token_step_same(1) [OF tok], of Millisecond] by simp_all
  have ef: "get ?e Hour = Some h" "get ?e Minute = Some (decoded_minute m)"
    "get ?e Second = get e3 Second" "get ?e Millisecond = get e3 Millisecond"
    by (simp_all add: rollover_get end_meridiem_get get_assign)
  have en: "time_in_range 24 ?e"
    using ef e3f e2s e2m hr mi decoded_nonneg [OF g]
    by (simp add: time_in_range_def in_range_def)
  have st: "time_in_range 24 s'"
    using end_token_step_start [OF tok] s back_propagate_in_range [OF s u]
    by (cases "AM_PM_HOUR_GROUP m = None") simp_all
  from en st r' show ?thesis by simp
qed

text \<open>
  Claim C2, as the source has it. When the digit groups of the matches are digit strings,
  as the patterns make them, and the second and millisecond that the factory implies, if
  any, lie in their ranges, then the start and the end of every returned result have an
  hour from 0 to 24, a minute from 0 to 59, and, where present, a second from 0 to 59 and
  a millisecond from 0 to 999.
\<close>

theorem result_fields_in_range:
  assumes "parser_extract date ctx m f = Inr r"
    and "grammar_match m"
    and "case f of None \<Rightarrow> True | Some fm \<Rightarrow> grammar_match fm"
    and "opt_range (defaults ctx Second) 0 59"
    and "opt_range (defaults ctx Millisecond) 0 999"
  shows "time_in_range 24 (res_start r) \<and>
         (case res_end r of None \<Rightarrow> True | Some e \<Rightarrow> time_in_range 24 e)"
proof -
  from assms(1) obtain c where c: "extractPrimaryTimeComponents ctx m = Some c"
    and cases: "r = start_only m c \<or>
        (\<exists>fm. f = Some fm \<and> extractEndTimeComponent date (start_only m c) fm = Some r)"
    by (auto simp add: extract_nf split: option.splits if_splits)
  note p = primary_in_range [OF c assms(2,4,5)]
  from cases show ?thesis
  proof
    assume "r = start_only m c"
    with p show ?thesis by (simp add: start_only_def)
  next
    assume "\<exists>fm. f = Some fm \<and> extractEndTimeComponent date (start_only m c) fm = Some r"
    then obtain fm where fm: "f = Some fm"
      and e: "extractEndTimeComponent date (start_only m c) fm = Some r"
      by blast
    from fm assms(3) have g: "grammar_match fm" by simp
    from end_in_range [OF e g] p show ?thesis
      by (simp add: start_only_def split: option.splits)
  qed
qed

theorem result_fields_in_range_witness:
  "(case parser_extract date_getTime ctx_dated m_15_30_45_250 (Some f_13_15_20) of
      Inl i \<Rightarrow> False
    | Inr r \<Rightarrow>
        time_in_range 24 (res_start r) \<and> get (res_start r) Millisecond = Some 250 \<and>
        (case res_end r of
           None \<Rightarrow> False
         | Some e \<Rightarrow> time_in_range 24 e \<and> get e Hour = Some 13 \<and> get e Second = Some 20))"
proof -
  obtain r e where x: "parser_extract date_getTime ctx_dated m_15_30_45_250 (Some f_13_15_20) = Inr r"
    and y: "res_end r = Some e"
    and v: "get (res_start r) Millisecond = Some 250" "get e Hour = Some 13" "get e Second = Some 20"
  proof -
    have "(case parser_extract date_getTime ctx_dated m_15_30_45_250 (Some f_13_15_20) of
            Inl i \<Rightarrow> False
          | Inr r \<Rightarrow>
              get (res_start r) Millisecond = Some 250 \<and>
              (case res_end r of
                 None \<Rightarrow> False
               | Some e \<Rightarrow> get e Hour = Some 13 \<and> get e Second = Some 20))"
      by code_simp
    then show ?thesis
      using that by (auto split: sum.splits option.splits)
  qed
  have g: "grammar_match m_15_30_45_250"
    "case Some f_13_15_20 of None \<Rightarrow> True | Some fm \<Rightarrow> grammar_match fm"
    "opt_range (defaults ctx_dated Second) 0 59" "opt_range (defaults ctx_dated Millisecond) 0 999"
    by code_simp+
  show ?thesis
    unfolding x using result_fields_in_range [OF x g] y v by simp
qed

text \<open>
  Claim C2, as the spec states it, fails on \<^verbatim>\<open>24:00\<close>: the extraction succeeds and the hour
  of the start is 24, outside 0 to 23.
\<close>

theorem result_fields_in_range_counterexample:
  "(case parser_extract date_getTime ctx_dated m_24_00 None of
      Inl i \<Rightarrow> False
    | Inr r \<Rightarrow> get (res_start r) Hour = Some 24 \<and> \<not> time_in_range 23 (res_start r))"
  by code_simp

section \<open>The two copies of the decode\<close>

lemma start_SomeE:
  assumes "extractStartTimeComponent r m = Some r'"
  obtains h mer c1 c where
    "token_step (decoded_hour m) (AM_PM_HOUR_GROUP m) = Some (h, mer)"
    "ms_step (MILLI_SECOND_GROUP m) (store_step (res_start r) h (decoded_minute m) mer) = Some c1"
    "sec_step (SECOND_GROUP m) c1 = Some c"
    "r' = r\<lparr>res_start := c\<rparr>"
  using assms unfolding start_nf decoded_hour_def decoded_minute_def
  by (auto split: prod.splits if_splits Option.bind_splits)

lemma store_step_agree:
  assumes "same_at Meridiem a b" and "same_at k a b \<or> k \<in> {Hour, Minute}"
  shows "same_at k (store_step a h mi mer) (store_step b h mi mer)"
  using assms
  by (auto simp add: store_step_def Let_def same_at_def assign_def imply_def split: option.splits)

lemma ms_step_agree:
  "ms_step g a = Some a' \<Longrightarrow> ms_step g b = Some b' \<Longrightarrow> same_at k a b \<Longrightarrow> same_at k a' b'"
  by (auto simp add: ms_step_def same_at_def assign_def split: option.splits if_splits)

lemma sec_step_agree:
  "sec_step g a = Some a' \<Longrightarrow> sec_step g b = Some b' \<Longrightarrow> same_at k a b \<Longrightarrow> same_at k a' b'"
  by (auto simp add: sec_step_def same_at_def assign_def split: option.splits if_splits)

lemma start_agrees:
  assumes s: "extractStartTimeComponent r m = Some r'"
    and p: "extractPrimaryTimeComponents ctx m = Some c"
    and mer: "same_at Meridiem (res_start r) (createParsingComponents ctx)"
    and k: "same_at k (res_start r) (createParsingComponents ctx) \<or> k \<in> {Hour, Minute}"
  shows "same_at k (res_start r') c"
proof -
  from s obtain h mer c1 c2 where
    t: "token_step (decoded_hour m) (AM_PM_HOUR_GROUP m) = Some (h, mer)"
    and ms: "ms_step (MILLI_SECOND_GROUP m) (store_step (res_start r) h (decoded_minute m) mer) = Some c1"
    and sec: "sec_step (SECOND_GROUP m) c1 = Some c2"
    and r': "r' = r\<lparr>res_start := c2\<rparr>"
    by (rule start_SomeE)
  from p obtain h' mer' d1 where
    t': "token_step (decoded_hour m) (AM_PM_HOUR_GROUP m) = Some (h', mer')"
    and ms': "ms_step (MILLI_SECOND_GROUP m)
       (store_step (createParsingComponents ctx) h' (decoded_minute m) mer') = Some d1"
    and sec': "sec_step (SECOND_GROUP m) d1 = Some c"
    by (rule primary_SomeE)
  from t t' have e: "h' = h" "mer' = mer" by simp_all
  have "same_at k (store_step (res_start r) h (decoded_minute m) mer)
          (store_step (createParsingComponents ctx) h (decoded_minute m) mer)"
    using mer k by (rule store_step_agree)
  with ms ms' e have "same_at k c1 d1"
    using ms_step_agree by simp
  with sec sec' have "same_at k c2 c"
    using sec_step_agree by simp
  with r' show ?thesis by simp
qed

text \<open>
  Claim C9. On a result whose start is a fresh components value, as the factory makes
  it, \<open>extractStartTimeComponent\<close> returns exactly what \<open>extractPrimaryTimeComponents\<close>
  returns, put into the start of the result: both fail, or both succeed with the same
  values and tags. Whether they fail depends on the match alone. On any result whose
  start agrees with a fresh components value in meridiem, second and millisecond, the two
  agree in value and tag on hour, minute, second, millisecond and meridiem.
\<close>

theorem start_decode_agrees_with_primary:
  "extractStartTimeComponent (r\<lparr>res_start := createParsingComponents ctx\<rparr>) m =
     map_option (\<lambda>c. r\<lparr>res_start := c\<rparr>) (extractPrimaryTimeComponents ctx m) \<and>
   (extractStartTimeComponent r m = None) = (extractPrimaryTimeComponents ctx m = None) \<and>
   (\<forall>r' c k.
      extractStartTimeComponent r m = Some r' \<and> extractPrimaryTimeComponents ctx m = Some c \<and>
      same_at Meridiem (res_start r) (createParsingComponents ctx) \<and>
      same_at Second (res_start r) (createParsingComponents ctx) \<and>
      same_at Millisecond (res_start r) (createParsingComponents ctx) \<and>
      k \<in> {Hour, Minute, Second, Millisecond, Meridiem} \<longrightarrow>
      get (res_start r') k = get c k \<and> isCertain (res_start r') k = isCertain c k)"
proof (intro conjI)
  show "extractStartTimeComponent (r\<lparr>res_start := createParsingComponents ctx\<rparr>) m =
     map_option (\<lambda>c. r\<lparr>res_start := c\<rparr>) (extractPrimaryTimeComponents ctx m)"
    by (simp add: start_nf primary_nf map_option_case split: prod.splits option.splits Option.bind_splits)
next
  obtain h0 mi where hm: "spec_hour_minute (HOUR_GROUP m) (MINUTE_GROUP m) = (h0, mi)"
    by (cases "spec_hour_minute (HOUR_GROUP m) (MINUTE_GROUP m)")
  show "(extractStartTimeComponent r m = None) = (extractPrimaryTimeComponents ctx m = None)"
    by (cases "token_step h0 (AM_PM_HOUR_GROUP m)")
       (auto simp add: start_nf primary_nf hm fraction_fails)
next
  show "\<forall>r' c k.
      extractStartTimeComponent r m = Some r' \<and> extractPrimaryTimeComponents ctx m = Some c \<and>
      same_at Meridiem (res_start r) (createParsingComponents ctx) \<and>
      same_at Second (res_start r) (createParsingComponents ctx) \<and>
      same_at Millisecond (res_start r) (createParsingComponents ctx) \<and>
      k \<in> {Hour, Minute, Second, Millisecond, Meridiem} \<longrightarrow>
      get (res_start r') k = get c k \<and> isCertain (res_start r') k = isCertain c k"
  proof (intro allI impI)
    fix r' c k
    assume a: "extractStartTimeComponent r m = Some r' \<and> extractPrimaryTimeComponents ctx m = Some c \<and>
      same_at Meridiem (res_start r) (createParsingComponents ctx) \<and>
      same_at Second (res_start r) (createParsingComponents ctx) \<and>
      same_at Millisecond (res_start r) (createParsingComponents ctx) \<and>
      k \<in> {Hour, Minute, Second, Millisecond, Meridiem}"
    then have s: "extractStartTimeComponent r m = Some r'"
      and p: "extractPrimaryTimeComponents ctx m = Some c"
      and me: "same_at Meridiem (res_start r) (createParsingComponents ctx)"
      by simp_all
    from a have "k = Hour \<or> k = Minute \<or> k = Second \<or> k = Millisecond \<or> k = Meridiem"
      by simp
    with a have kk: "same_at k (res_start r) (createParsingComponents ctx) \<or> k \<in> {Hour, Minute}"
      by blast
    have "same_at k (res_start r') c"
      using s p me kk by (rule start_agrees)
    then show "get (res_start r') k = get c k \<and> isCertain (res_start r') k = isCertain c k"
      by (rule same_at_get)
  qed
qed

theorem start_decode_agrees_with_primary_witness:
  "get (res_start (the (extractStartTimeComponent (result_after_line_67 ctx_bare m_12pm) m_12pm))) Hour
     = get (the (extractPrimaryTimeComponents ctx_bare m_12pm)) Hour \<and>
   get (res_start (the (extractStartTimeComponent (result_after_line_67 ctx_bare m_12pm) m_12pm))) Meridiem
     = get (the (extractPrimaryTimeComponents ctx_bare m_12pm)) Meridiem \<and>
   isCertain (res_start (the (extractStartTimeComponent (result_after_line_67 ctx_bare m_12pm) m_12pm))) Meridiem
     = isCertain (the (extractPrimaryTimeComponents ctx_bare m_12pm)) Meridiem \<and>
   get (res_start (the (extractStartTimeComponent (result_after_line_67 ctx_bare m_12pm) m_12pm))) Day
     = Some 1 \<and>
   get (the (extractPrimaryTimeComponents ctx_bare m_12pm)) Day = None"
proof -
  let ?r = "result_after_line_67 ctx_bare m_12pm"
  have ok: "extractPrimaryTimeComponents ctx_bare m_12pm \<noteq> None"
    "extractStartTimeComponent ?r m_12pm \<noteq> None"
    by code_simp+
  then obtain c r' where c: "extractPrimaryTimeComponents ctx_bare m_12pm = Some c"
    and r': "extractStartTimeComponent ?r m_12pm = Some r'"
    by auto
  have same: "same_at Meridiem (res_start ?r) (createParsingComponents ctx_bare)"
    "same_at Second (res_start ?r) (createParsingComponents ctx_bare)"
    "same_at Millisecond (res_start ?r) (createParsingComponents ctx_bare)"
    by code_simp+
  have day: "get (res_start (the (extractStartTimeComponent ?r m_12pm))) Day = Some 1"
    "get (the (extractPrimaryTimeComponents ctx_bare m_12pm)) Day = None"
    by code_simp+
  from start_decode_agrees_with_primary [where r = "?r" and ctx = ctx_bare and m = m_12pm] c r' same
  have "get (res_start r') Hour = get c Hour \<and> get (res_start r') Meridiem = get c Meridiem \<and>
        isCertain (res_start r') Meridiem = isCertain c Meridiem"
    by simp
  with c r' day show ?thesis by simp
qed

section \<open>The reference date\<close>

text \<open>
  The three \<^verbatim>\<open>imply\<close> calls of lines 65 to 67 write into the start that line 69 replaces,
  so the extractor returns the same for every reference date.
\<close>

lemma extract_ignores_reference_date:
  "parser_extract date (ctx\<lparr>ref_year := y, ref_month := mo, ref_date := d\<rparr>) m f =
   parser_extract date ctx m f"
proof -
  have "createParsingComponents (ctx\<lparr>ref_year := y, ref_month := mo, ref_date := d\<rparr>) =
        createParsingComponents ctx"
    by (simp add: createParsingComponents_def)
  then have "extractPrimaryTimeComponents (ctx\<lparr>ref_year := y, ref_month := mo, ref_date := d\<rparr>) m =
        extractPrimaryTimeComponents ctx m"
    by (simp only: primary_nf)
  then show ?thesis
    by (simp only: extract_nf)
qed

lemma end_start_same:
  assumes "extractEndTimeComponent date r m = Some r'" and "k \<notin> {Meridiem, Hour}"
  shows "same_at k (res_start r') (res_start r)"
proof -
  from assms(1) obtain e2 s' e3 h mer where
    tok: "end_token_step (res_start r) e2 (decoded_hour m) (AM_PM_HOUR_GROUP m) = Some (s', e3, h, mer)"
    and r': "r' = r\<lparr>res_text := res_text r @ match_0 m, res_start := s',
            res_end := Some (rollover date s'
               (end_meridiem s' (assign (assign e3 Hour h) Minute (decoded_minute m)) h mer))\<rparr>"
    by (rule end_SomeE)
  from end_token_step_same(2) [OF tok assms(2)] r' show ?thesis by simp
qed

text \<open>
  The day, month and year of every returned start are those that the factory implies
  into fresh components, whatever the reference date is.
\<close>

lemma start_date_from_factory:
  assumes "parser_extract date ctx m f = Inr r" and "k \<in> {Day, Month, Year}"
  shows "get (res_start r) k = defaults ctx k \<and> \<not> isCertain (res_start r) k"
proof -
  from assms(1) obtain c where c: "extractPrimaryTimeComponents ctx m = Some c"
    and cases: "r = start_only m c \<or>
        (\<exists>fm. extractEndTimeComponent date (start_only m c) fm = Some r)"
    by (auto simp add: extract_nf split: option.splits if_splits)
  from assms(2) have fresh: "same_at k c (createParsingComponents ctx)"
    by (intro primary_same [OF c]) auto
  from cases have "same_at k (res_start r) c"
  proof
    assume "r = start_only m c"
    then show ?thesis by (simp add: start_only_def same_at_refl)
  next
    assume "\<exists>fm. extractEndTimeComponent date (start_only m c) fm = Some r"
    then obtain fm where "extractEndTimeComponent date (start_only m c) fm = Some r"
      by blast
    from end_start_same [OF this, of k] assms(2) show ?thesis
      by (auto simp add: start_only_def)
  qed
  then have "same_at k (res_start r) (createParsingComponents ctx)"
    using fresh by (rule same_at_trans)
  from same_at_get [OF this] show ?thesis
    by (simp add: get_fresh isCertain_fresh)
qed


end
